theory Spec2Isabelle
  imports Complex_Main
begin

section \<open>The EEG recorder of RecordEEGPersonality.py\<close>

text \<open>
  The program is one class, \<open>EEGRecorderApp\<close>, whose methods run as callbacks of the
  GUI toolkit and as the bodies of background threads. The embedding keeps the fields
  of the object in one record, adds the parts of the environment the methods write to
  (the files on disk, the dialogs shown, the threads spawned), and makes every method a
  function from the state to the new state. Clock readings, the entry widget's content,
  the results of the discovery call and the samples pulled from the inlet are inputs.

  Python floats are modelled by the rationals (every finite float is one); the float
  subtraction \<open>end_time - start_time\<close> is the exact difference.
\<close>

subsection \<open>Data\<close>

type_synonym pyfloat = rat

text \<open>The five keys of \<open>self.buttons\<close>, in the order \<open>__init__\<close> inserts them.\<close>

datatype segment = EC | EO | Personality1 | Personality2 | Personality3

fun key_str :: "segment \<Rightarrow> string" where
  "key_str EC = ''EC''"
| "key_str EO = ''EO''"
| "key_str Personality1 = ''Personality1''"
| "key_str Personality2 = ''Personality2''"
| "key_str Personality3 = ''Personality3''"

fun label_str :: "segment \<Rightarrow> string" where
  "label_str EC = ''Record Eyes Closed''"
| "label_str EO = ''Record Eyes Opened''"
| "label_str Personality1 = ''Record Personality 1''"
| "label_str Personality2 = ''Record Personality 2''"
| "label_str Personality3 = ''Record Personality 3''"

definition keys :: "segment list" where
  "keys = [EC, EO, Personality1, Personality2, Personality3]"

datatype tk_state = NORMAL | DISABLED

record button =
  btn_text :: string
  btn_state :: tk_state

datatype csv_cell = Text string | Number pyfloat

text \<open>
  A file holds either the rows handed to \<open>csv.writer\<close> (the serialisation of a row
  is the library's) or the text written by \<open>f.write\<close>.
\<close>

datatype content = Csv "csv_cell list list" | Plain string

datatype error = OSError string | TypeError | ValueError

datatype outcome = Returned | Raised error

datatype target = Monitor_muse_connection | Record_data | Update_stopwatch

type_synonym stream_info = string

datatype inlet = StreamInlet stream_info

record world =
  stream :: "stream_info option"
  inlet :: "inlet option"
  recording :: bool
  start_time :: "pyfloat option"
  data :: "pyfloat list list"
  participant_id :: "string option"
  durations :: "(segment \<times> pyfloat) list"
  stopwatch_running :: bool
  status_label :: string
  text_field_frame :: "bool option"
  stopwatch_label :: string
  buttons :: "segment \<Rightarrow> button"
  connected :: bool
  spawned :: "target list"
  pulling :: nat
  files :: "string \<Rightarrow> content option"
  writable :: "string \<Rightarrow> bool"
  dialogs :: "(string \<times> string) list"

text \<open>
  \<open>text_field_frame\<close> is \<open>None\<close> until the frame is created, then \<open>Some shown\<close>.
  \<open>connected\<close> is the local variable of \<open>monitor_muse_connection\<close>. \<open>durations\<close> is
  a Python dict, whose iteration order is the order of first insertion: an association
  list. \<open>files\<close>, \<open>writable\<close> (whether \<open>open(path, 'w')\<close> succeeds on a path),
  \<open>dialogs\<close> (the message boxes shown) and \<open>spawned\<close> (the threads started) are the
  environment. \<open>pulling\<close> counts the passes of sample-pulling loops that have read the
  recording flag as set and are waiting in \<open>pull_sample\<close>.
\<close>

definition init :: "(string \<Rightarrow> content option) \<Rightarrow> (string \<Rightarrow> bool) \<Rightarrow> world" where
  "init fs wr =
     \<lparr> stream = None, inlet = None, recording = False, start_time = None, data = [],
       participant_id = None, durations = [], stopwatch_running = False,
       status_label = ''Status: Not connected to Muse 2'',
       text_field_frame = None,
       stopwatch_label = ''Stopwatch: 00:00:00'',
       buttons = (\<lambda>k. \<lparr> btn_text = label_str k, btn_state = DISABLED \<rparr>),
       connected = False,
       spawned = [Monitor_muse_connection],
       pulling = 0,
       files = fs, writable = wr, dialogs = [] \<rparr>"

subsection \<open>Formatting\<close>

definition newline :: string where
  "newline = [CHR 0x0A]"

definition digit_char :: "nat \<Rightarrow> char" where
  "digit_char d = ''0123456789'' ! d"

fun show_nat :: "nat \<Rightarrow> string" where
  "show_nat n = (if n < 10 then [digit_char n] else show_nat (n div 10) @ [digit_char (n mod 10)])"

declare show_nat.simps [simp del]

text \<open>Rounding to the nearest integer, ties to the even one.\<close>

definition round_half_even :: "rat \<Rightarrow> int" where
  "round_half_even q =
     (let f = \<lfloor>q\<rfloor>; r = q - of_int f
      in if r < 1 / 2 then f
         else if 1 / 2 < r then f + 1
         else if even f then f else f + 1)"

text \<open>
  \<open>f"{duration:.2f}"\<close>: the sign, the integer part, a point and two decimals of the
  value rounded to the nearest hundredth (ties to even, on the exact value).
\<close>

definition format_2f :: "pyfloat \<Rightarrow> string" where
  "format_2f d =
     (let n = nat (round_half_even (\<bar>d\<bar> * 100))
      in (if d < 0 then ''-'' else '''') @ show_nat (n div 100) @ ''.''
           @ [digit_char (n mod 100 div 10), digit_char (n mod 10)])"

text \<open>\<open>f"{x:02}"\<close> for an integer: zero-padded to width two, the sign counted.\<close>

definition format_02 :: "int \<Rightarrow> string" where
  "format_02 i =
     (if i < 0 then ''-'' @ show_nat (nat (- i))
      else if i < 10 then ''0'' @ show_nat (nat i)
      else show_nat (nat i))"

text \<open>\<open>int(x)\<close> of a float truncates towards zero.\<close>

definition py_int :: "pyfloat \<Rightarrow> int" where
  "py_int x = (if 0 \<le> x then \<lfloor>x\<rfloor> else \<lceil>x\<rceil>)"

text \<open>
  \<open>str.strip()\<close>. A character is a code point below 256; the ones Python counts as
  whitespace are the ten of ASCII, NEXT LINE (0x85) and NO-BREAK SPACE (0xA0).
\<close>

definition is_space :: "char \<Rightarrow> bool" where
  "is_space c = (c \<in> set [CHR 0x09, CHR 0x0A, CHR 0x0B, CHR 0x0C, CHR 0x0D,
                           CHR 0x1C, CHR 0x1D, CHR 0x1E, CHR 0x1F, CHR 0x20,
                           CHR 0x85, CHR 0xA0])"

definition strip :: "string \<Rightarrow> string" where
  "strip s = rev (dropWhile is_space (rev (dropWhile is_space s)))"

text \<open>\<open>key.replace('_', ' ')\<close>.\<close>

definition replace_underscore :: "string \<Rightarrow> string" where
  "replace_underscore s = map (\<lambda>c. if c = CHR ''_'' then CHR '' '' else c) s"

text \<open>How an f-string prints \<open>self.participant_id\<close>.\<close>

definition pid_str :: "world \<Rightarrow> string" where
  "pid_str w = (case participant_id w of None \<Rightarrow> ''None'' | Some p \<Rightarrow> p)"

subsection \<open>Widgets\<close>

definition config_state :: "segment \<Rightarrow> tk_state \<Rightarrow> world \<Rightarrow> world" where
  "config_state k s w = w\<lparr>buttons := (buttons w)(k := (buttons w k)\<lparr>btn_state := s\<rparr>)\<rparr>"

definition config_text :: "segment \<Rightarrow> string \<Rightarrow> world \<Rightarrow> world" where
  "config_text k t w = w\<lparr>buttons := (buttons w)(k := (buttons w k)\<lparr>btn_text := t\<rparr>)\<rparr>"

definition show_text_field :: "world \<Rightarrow> world" where
  "show_text_field w = w\<lparr>text_field_frame := Some True\<rparr>"

definition hide_text_field :: "world \<Rightarrow> world" where
  "hide_text_field w =
     (case text_field_frame w of
        None \<Rightarrow> w
      | Some _ \<Rightarrow> w\<lparr>text_field_frame := Some False\<rparr>)"

text \<open>The loop over \<open>self.buttons.values()\<close>.\<close>

fun disable_all :: "segment list \<Rightarrow> world \<Rightarrow> world" where
  "disable_all [] w = w"
| "disable_all (k # ks) w = disable_all ks (config_state k DISABLED w)"

definition disable_buttons :: "world \<Rightarrow> world" where
  "disable_buttons w = disable_all keys w"

definition on_connection :: "world \<Rightarrow> world" where
  "on_connection w = show_text_field (w\<lparr>status_label := ''Status: Connected to Muse 2''\<rparr>)"

definition on_disconnection :: "world \<Rightarrow> world" where
  "on_disconnection w =
     disable_buttons (hide_text_field (w\<lparr>status_label := ''Status: Not connected to Muse 2''\<rparr>))"

text \<open>\<open>enable_buttons\<close>; the argument is what \<open>participant_id_entry.get()\<close> returns.\<close>

definition enable_buttons :: "string \<Rightarrow> world \<Rightarrow> world" where
  "enable_buttons entry w =
     (let w1 = w\<lparr>participant_id := Some (strip entry)\<rparr>
      in if strip entry \<noteq> [] then config_state EC NORMAL w1 else w1)"

subsection \<open>The stopwatch\<close>

definition start_stopwatch :: "world \<Rightarrow> world" where
  "start_stopwatch w =
     w\<lparr>stopwatch_running := True, spawned := spawned w @ [Update_stopwatch]\<rparr>"

definition reset_stopwatch :: "world \<Rightarrow> world" where
  "reset_stopwatch w = w\<lparr>stopwatch_label := ''Stopwatch: 00:00:00''\<rparr>"

definition stopwatch_text :: "int \<Rightarrow> string" where
  "stopwatch_text elapsed_time =
     (let hours = elapsed_time div 3600; remainder = elapsed_time mod 3600;
          minutes = remainder div 60; seconds = remainder mod 60
      in ''Stopwatch: '' @ format_02 hours @ '':'' @ format_02 minutes @ '':'' @ format_02 seconds)"

text \<open>
  One pass of the loop of \<open>update_stopwatch\<close>: \<open>Some\<close> the state after the body, or
  \<open>None\<close> when the loop condition fails and the thread ends. \<open>t0\<close> is the thread's
  own \<open>start_time\<close>, \<open>now\<close> the clock.
\<close>

definition update_stopwatch_iter :: "pyfloat \<Rightarrow> pyfloat \<Rightarrow> world \<Rightarrow> world option" where
  "update_stopwatch_iter t0 now w =
     (if stopwatch_running w
      then Some (w\<lparr>stopwatch_label := stopwatch_text (py_int (now - t0))\<rparr>)
      else None)"

text \<open>The loop run on its own over the clock readings of its passes.\<close>

fun update_stopwatch :: "pyfloat \<Rightarrow> pyfloat list \<Rightarrow> world \<Rightarrow> world" where
  "update_stopwatch t0 [] w = w"
| "update_stopwatch t0 (now # ts) w =
     (case update_stopwatch_iter t0 now w of
        None \<Rightarrow> w
      | Some w' \<Rightarrow> update_stopwatch t0 ts w')"

subsection \<open>Pulling samples\<close>

text \<open>
  A pass of the loop of \<open>record_data\<close> has two halves, and other threads may run
  between them. First the loop condition is read: with the flag set the thread goes on
  to wait in \<open>pull_sample\<close>, with the flag clear it ends.
\<close>

definition record_data_enter :: "world \<Rightarrow> world" where
  "record_data_enter w = (if recording w then w\<lparr>pulling := Suc (pulling w)\<rparr> else w)"

text \<open>
  Then \<open>pull_sample\<close> returns the sample and its timestamp to a waiting pass, which
  appends the row to whatever \<open>self.data\<close> is by then, without reading the flag again.
\<close>

definition record_data_append :: "pyfloat list \<times> pyfloat \<Rightarrow> world \<Rightarrow> world" where
  "record_data_append pulled w =
     (if 0 < pulling w
      then (case pulled of (sample, timestamp) \<Rightarrow>
              w\<lparr>data := data w @ [[timestamp] @ sample], pulling := pulling w - 1\<rparr>)
      else w)"

text \<open>
  One whole pass with nothing running in between: the flag is read, \<open>pull_sample\<close>
  returns the pair, the row is appended. \<open>None\<close> when the flag is clear and the
  thread ends.
\<close>

definition record_data_iter :: "pyfloat list \<times> pyfloat \<Rightarrow> world \<Rightarrow> world option" where
  "record_data_iter pulled w =
     (if recording w
      then (case pulled of (sample, timestamp) \<Rightarrow> Some (w\<lparr>data := data w @ [[timestamp] @ sample]\<rparr>))
      else None)"

fun record_data :: "(pyfloat list \<times> pyfloat) list \<Rightarrow> world \<Rightarrow> world" where
  "record_data [] w = w"
| "record_data (p # ps) w =
     (case record_data_iter p w of
        None \<Rightarrow> w
      | Some w' \<Rightarrow> record_data ps w')"

subsection \<open>Persistence\<close>

text \<open>\<open>d[k] = v\<close> on a dict: the value is replaced in place, a new key goes last.\<close>

fun dict_set :: "'k \<Rightarrow> 'v \<Rightarrow> ('k \<times> 'v) list \<Rightarrow> ('k \<times> 'v) list" where
  "dict_set k v [] = [(k, v)]"
| "dict_set k v ((k', v') # d) = (if k' = k then (k, v) # d else (k', v') # dict_set k v d)"

definition csv_header :: "csv_cell list" where
  "csv_header = [Text ''timestamps'', Text ''TP9'', Text ''AF7'', Text ''AF8'', Text ''TP10'',
                 Text ''Right AUX'']"

definition csv_rows :: "pyfloat list list \<Rightarrow> csv_cell list list" where
  "csv_rows rows = map (map Number) rows"

definition csv_filename :: "world \<Rightarrow> segment \<Rightarrow> string" where
  "csv_filename w key = pid_str w @ ''_'' @ key_str key @ ''.csv''"

definition duration_filename :: "world \<Rightarrow> string" where
  "duration_filename w = pid_str w @ ''_duration.txt''"

definition duration_line :: "segment \<times> pyfloat \<Rightarrow> string" where
  "duration_line kd = (case kd of (key, duration) \<Rightarrow>
     key_str key @ '': '' @ format_2f duration @ '' seconds'' @ newline)"

definition duration_text :: "world \<Rightarrow> string" where
  "duration_text w =
     ''Participant ID: '' @ pid_str w @ newline @ concat (map duration_line (durations w))"

text \<open>
  \<open>open(filename, 'w')\<close> raises when the path cannot be opened, before anything is
  written; once the file is open the writes of the \<open>with\<close> block go through and the
  file holds exactly what they wrote.
\<close>

definition write_file :: "string \<Rightarrow> content \<Rightarrow> world \<Rightarrow> outcome \<times> world" where
  "write_file filename c w =
     (if writable w filename then (Returned, w\<lparr>files := (files w)(filename \<mapsto> c)\<rparr>)
      else (Raised (OSError filename), w))"

definition update_duration_file :: "world \<Rightarrow> outcome \<times> world" where
  "update_duration_file w = write_file (duration_filename w) (Plain (duration_text w)) w"

definition showinfo :: "string \<Rightarrow> string \<Rightarrow> world \<Rightarrow> world" where
  "showinfo title message w = w\<lparr>dialogs := dialogs w @ [(title, message)]\<rparr>"

text \<open>\<open>save_data\<close>; \<open>now\<close> is the clock reading \<open>end_time\<close>.\<close>

definition save_data :: "segment \<Rightarrow> pyfloat \<Rightarrow> world \<Rightarrow> outcome \<times> world" where
  "save_data key now w =
     (case start_time w of
        None \<Rightarrow> (Raised TypeError, w)
      | Some t0 \<Rightarrow>
          (let duration = now - t0;
               w1 = w\<lparr>durations := dict_set key duration (durations w)\<rparr>;
               filename = csv_filename w1 key
           in case write_file filename (Csv (csv_header # csv_rows (data w1))) w1 of
                (Raised e, w2) \<Rightarrow> (Raised e, w2)
              | (Returned, w2) \<Rightarrow>
                  (case update_duration_file w2 of
                     (Raised e, w3) \<Rightarrow> (Raised e, w3)
                   | (Returned, w3) \<Rightarrow>
                       (Returned,
                        showinfo ''Recording Saved''
                          (key_str key @ '' data saved to '' @ filename) w3))))"

subsection \<open>Starting and stopping\<close>

text \<open>\<open>keys.index(current_key)\<close>, which raises ValueError on a key that is absent.\<close>

fun index_of :: "'a list \<Rightarrow> 'a \<Rightarrow> nat option" where
  "index_of [] x = None"
| "index_of (y # ys) x = (if y = x then Some 0 else map_option Suc (index_of ys x))"

definition get_next_key :: "segment \<Rightarrow> error + segment option" where
  "get_next_key current_key =
     (case index_of keys current_key of
        None \<Rightarrow> Inl ValueError
      | Some current_index \<Rightarrow>
          Inr (if current_index + 1 < length keys then Some (keys ! (current_index + 1)) else None))"

text \<open>\<open>toggle_recording\<close>; \<open>now\<close> is the clock reading taken by the branch that runs.\<close>

definition toggle_recording :: "segment \<Rightarrow> pyfloat \<Rightarrow> world \<Rightarrow> outcome \<times> world" where
  "toggle_recording key now w =
     (if recording w then
        (case save_data key now (w\<lparr>recording := False, stopwatch_running := False\<rparr>) of
           (Raised e, w1) \<Rightarrow> (Raised e, w1)
         | (Returned, w1) \<Rightarrow>
             (let w2 = reset_stopwatch w1;
                  w3 = config_state key DISABLED
                         (config_text key (''Record '' @ replace_underscore (key_str key)) w2)
              in case get_next_key key of
                   Inl e \<Rightarrow> (Raised e, w3)
                 | Inr None \<Rightarrow> (Returned, w3)
                 | Inr (Some next_key) \<Rightarrow> (Returned, config_state next_key NORMAL w3)))
      else
        (let w1 = w\<lparr>recording := True, start_time := Some now, data := []\<rparr>;
             w2 = start_stopwatch w1;
             w3 = w2\<lparr>spawned := spawned w2 @ [Record_data]\<rparr>
         in (Returned, config_text key ''Stop Recording'' w3)))"

subsection \<open>The connection monitor\<close>

text \<open>
  What one pass of the monitor loop finds: \<open>resolve_stream\<close> returns a list of streams
  (with whether \<open>StreamInlet\<close> can then be built on its first) or raises.
\<close>

datatype poll = Streams "stream_info list" bool | Resolve_raises

datatype effect = Call_on_connection | Call_on_disconnection | Sleep nat

text \<open>
  The body of the \<open>try\<close>: whether it raised, the handlers it called, and the state
  it left.
\<close>

definition monitor_try :: "poll \<Rightarrow> world \<Rightarrow> bool \<times> effect list \<times> world" where
  "monitor_try p w =
     (case p of
        Resolve_raises \<Rightarrow> (True, [], w)
      | Streams streams inlet_ok \<Rightarrow>
          (case streams of
             s # _ \<Rightarrow>
               (if \<not> connected w then
                  (let w1 = w\<lparr>stream := Some s\<rparr>
                   in if inlet_ok
                      then (False, [Call_on_connection],
                            (on_connection (w1\<lparr>inlet := Some (StreamInlet s)\<rparr>))\<lparr>connected := True\<rparr>)
                      else (True, [], w1))
                else (False, [], w))
           | [] \<Rightarrow>
               (if connected w
                then (False, [Call_on_disconnection], (on_disconnection w)\<lparr>connected := False\<rparr>)
                else (False, [], w))))"

text \<open>One pass: the \<open>try\<close>, the \<open>except\<close> when it raised, and the sleep.\<close>

definition monitor_iter :: "poll \<Rightarrow> world \<Rightarrow> effect list \<times> world" where
  "monitor_iter p w =
     (case monitor_try p w of
        (raised, effs, w1) \<Rightarrow>
          (if raised \<and> connected w1
           then (effs @ [Call_on_disconnection, Sleep 1], (on_disconnection w1)\<lparr>connected := False\<rparr>)
           else (effs @ [Sleep 1], w1)))"

text \<open>
  \<open>while True\<close> over the results of the successive discovery calls: the loop has no
  exit, so it makes one pass per result it is given.
\<close>

fun monitor_muse_connection :: "poll list \<Rightarrow> world \<Rightarrow> effect list \<times> world" where
  "monitor_muse_connection [] w = ([], w)"
| "monitor_muse_connection (p # ps) w =
     (case monitor_iter p w of
        (effs, w1) \<Rightarrow>
          (case monitor_muse_connection ps w1 of
             (effs', w2) \<Rightarrow> (effs @ effs', w2)))"

text \<open>
  The signals of a run alternate: \<open>alternates c es\<close> holds when, starting from the
  connection flag \<open>c\<close>, each signal of \<open>es\<close> is the one that flips the flag.
\<close>

fun alternates :: "bool \<Rightarrow> effect list \<Rightarrow> bool" where
  "alternates c [] = True"
| "alternates c (Call_on_connection # es) = (\<not> c \<and> alternates True es)"
| "alternates c (Call_on_disconnection # es) = (c \<and> alternates False es)"
| "alternates c (Sleep n # es) = alternates c es"

text \<open>The connection flag after the signals of \<open>es\<close>, starting from \<open>c\<close>.\<close>

fun flag_after :: "bool \<Rightarrow> effect list \<Rightarrow> bool" where
  "flag_after c [] = c"
| "flag_after c (Call_on_connection # es) = flag_after True es"
| "flag_after c (Call_on_disconnection # es) = flag_after False es"
| "flag_after c (Sleep n # es) = flag_after c es"

subsection \<open>Events\<close>

text \<open>
  What happens to the running program, one event at a time: a pass of the monitor loop,
  a key released in the entry (with the entry's content), a click on a segment button
  (with the clock), a whole pass of a sample-pulling loop, or its first half and its
  second half as two events with others in between, a pass of a stopwatch loop (with
  the thread's start and the clock). The toolkit delivers a click only to a button whose
  state is NORMAL, and a key release only once the entry has been created; an exception
  in a callback ends the callback and leaves the state as it was at the raise.
\<close>

datatype event =
    Poll poll
  | KeyRelease string
  | Press segment pyfloat
  | Pulled "pyfloat list" pyfloat
  | Pull_enters
  | Pull_returns "pyfloat list" pyfloat
  | Tick pyfloat pyfloat

definition step :: "event \<Rightarrow> world \<Rightarrow> world" where
  "step ev w =
     (case ev of
        Poll p \<Rightarrow> snd (monitor_iter p w)
      | KeyRelease entry \<Rightarrow>
          (if text_field_frame w \<noteq> None then enable_buttons entry w else w)
      | Press key now \<Rightarrow>
          (if btn_state (buttons w key) = NORMAL then snd (toggle_recording key now w) else w)
      | Pulled sample timestamp \<Rightarrow>
          (case record_data_iter (sample, timestamp) w of None \<Rightarrow> w | Some w' \<Rightarrow> w')
      | Pull_enters \<Rightarrow> record_data_enter w
      | Pull_returns sample timestamp \<Rightarrow> record_data_append (sample, timestamp) w
      | Tick t0 now \<Rightarrow>
          (case update_stopwatch_iter t0 now w of None \<Rightarrow> w | Some w' \<Rightarrow> w'))"

fun run :: "event list \<Rightarrow> world \<Rightarrow> world" where
  "run [] w = w"
| "run (ev # evs) w = run evs (step ev w)"

text \<open>
  The history of a run: which identifiers \<open>enable_buttons\<close> stored, and which branch of
  \<open>toggle_recording\<close> ran for which key.
\<close>

datatype action = Entered string | Started segment | Stopped segment

definition actions :: "event \<Rightarrow> world \<Rightarrow> action list" where
  "actions ev w =
     (case ev of
        KeyRelease entry \<Rightarrow> (if text_field_frame w \<noteq> None then [Entered (strip entry)] else [])
      | Press key now \<Rightarrow>
          (if btn_state (buttons w key) = NORMAL
           then (if recording w then [Stopped key] else [Started key])
           else [])
      | Poll p \<Rightarrow> []
      | Pulled sample timestamp \<Rightarrow> []
      | Pull_enters \<Rightarrow> []
      | Pull_returns sample timestamp \<Rightarrow> []
      | Tick t0 now \<Rightarrow> [])"

fun history :: "event list \<Rightarrow> world \<Rightarrow> action list" where
  "history [] w = []"
| "history (ev # evs) w = actions ev w @ history evs (step ev w)"

definition id_entered :: "action list \<Rightarrow> bool" where
  "id_entered h = (\<exists>p \<in> set h. case p of Entered s \<Rightarrow> s \<noteq> [] | _ \<Rightarrow> False)"

text \<open>Some segment was started and, later, the stop branch ran for \<open>j\<close>.\<close>

fun stopped_after_start :: "segment \<Rightarrow> action list \<Rightarrow> bool" where
  "stopped_after_start j [] = False"
| "stopped_after_start j (Started s # h) = (Stopped j \<in> set h)"
| "stopped_after_start j (a # h) = stopped_after_start j h"

text \<open>Segment \<open>j\<close> itself was started and was stopped.\<close>

definition started_and_stopped :: "segment \<Rightarrow> action list \<Rightarrow> bool" where
  "started_and_stopped j h = (Started j \<in> set h \<and> Stopped j \<in> set h)"

text \<open>The keys for which the stop branch ran, in the order it ran.\<close>

definition stopped_keys :: "action list \<Rightarrow> segment list" where
  "stopped_keys h = concat (map (\<lambda>a. case a of Stopped k \<Rightarrow> [k] | _ \<Rightarrow> []) h)"

text \<open>The elements of a list, each once, in the order of their first occurrences.\<close>

definition first_occurrences :: "'a list \<Rightarrow> 'a list" where
  "first_occurrences xs = rev (remdups (rev xs))"

text \<open>What every state of a run satisfies, with the history that led to it.\<close>

definition reach_inv :: "world \<Rightarrow> action list \<Rightarrow> bool" where
  "reach_inv w h =
     ((recording w \<longrightarrow> start_time w \<noteq> None \<and> id_entered h \<and> (\<exists>s. Started s \<in> set h))
      \<and> (\<forall>k. btn_state (buttons w k) = NORMAL \<longrightarrow> id_entered h)
      \<and> (\<forall>j k. get_next_key j = Inr (Some k) \<longrightarrow> btn_state (buttons w k) = NORMAL
                 \<longrightarrow> stopped_after_start j h)
      \<and> map fst (durations w) = first_occurrences (stopped_keys h))"

subsection \<open>Example runs\<close>

text \<open>
  States reached from the initial state on an empty disk, used as concrete inputs: the
  headband connected and the identifier P01 typed; then EC started at 10 and one sample
  pulled at 11; then EC stopped at 12; and the last with a key released in the entry
  afterwards. \<open>locked_demo\<close> is \<open>recording_demo\<close> on a disk where the duration file
  cannot be opened.
\<close>

abbreviation idle_demo :: world where
  "idle_demo \<equiv> run [Poll (Streams [''Muse''] True), KeyRelease ''P01'']
                  (init (\<lambda>_. None) (\<lambda>_. True))"

abbreviation recording_demo :: world where
  "recording_demo \<equiv> run [Poll (Streams [''Muse''] True), KeyRelease ''P01'', Press EC 10,
                            Pulled [1, 2, 3, 4, 5] 11]
                       (init (\<lambda>_. None) (\<lambda>_. True))"

abbreviation saved_demo :: world where
  "saved_demo \<equiv> run [Poll (Streams [''Muse''] True), KeyRelease ''P01'', Press EC 10,
                        Pulled [1, 2, 3, 4, 5] 11, Press EC 12]
                   (init (\<lambda>_. None) (\<lambda>_. True))"

abbreviation retyped_demo :: world where
  "retyped_demo \<equiv> run [Poll (Streams [''Muse''] True), KeyRelease ''P01'', Press EC 10,
                          Pulled [1, 2, 3, 4, 5] 11, Press EC 12, KeyRelease ''P01'']
                     (init (\<lambda>_. None) (\<lambda>_. True))"

abbreviation locked_demo :: world where
  "locked_demo \<equiv> run [Poll (Streams [''Muse''] True), KeyRelease ''P01'', Press EC 10,
                         Pulled [1, 2, 3, 4, 5] 11]
                    (init (\<lambda>_. None) (\<lambda>p. p \<noteq> ''P01_duration.txt''))"

section \<open>Properties\<close>

subsection \<open>Widgets and keys\<close>

lemma set_keys: "k \<in> set keys"
  by (cases k) (simp_all add: keys_def)

lemma disable_all_eq:
  "disable_all ks w =
     w\<lparr>buttons := (\<lambda>k. if k \<in> set ks then (buttons w k)\<lparr>btn_state := DISABLED\<rparr> else buttons w k)\<rparr>"
proof (induction ks arbitrary: w)
  case Nil
  show ?case by simp
next
  case (Cons a ks)
  show ?case
    by (simp add: Cons.IH config_state_def fun_eq_iff cong: if_cong)
qed

lemma disable_buttons_eq:
  "disable_buttons w = w\<lparr>buttons := (\<lambda>k. (buttons w k)\<lparr>btn_state := DISABLED\<rparr>)\<rparr>"
  by (simp add: disable_buttons_def disable_all_eq set_keys)

lemma on_disconnection_eq:
  "on_disconnection w =
     w\<lparr>status_label := ''Status: Not connected to Muse 2'',
       text_field_frame := map_option (\<lambda>_. False) (text_field_frame w),
       buttons := (\<lambda>k. (buttons w k)\<lparr>btn_state := DISABLED\<rparr>)\<rparr>"
  by (simp add: on_disconnection_def disable_buttons_eq hide_text_field_def split: option.split)

lemma get_next_key_simps:
  "get_next_key EC = Inr (Some EO)"
  "get_next_key EO = Inr (Some Personality1)"
  "get_next_key Personality1 = Inr (Some Personality2)"
  "get_next_key Personality2 = Inr (Some Personality3)"
  "get_next_key Personality3 = Inr None"
  by (simp_all add: get_next_key_def keys_def)

lemma replace_underscore_key: "replace_underscore (key_str k) = key_str k"
  by (cases k) (simp_all add: replace_underscore_def)

subsection \<open>The disconnect handler\<close>

text \<open>
  C9. The disconnect handler sets the status text to the disconnected one, hides the
  participant-ID frame (a frame that exists is no longer shown) and leaves every segment
  button disabled. The recording flag, the stopwatch flag, the sample buffer, the
  durations, the stored participant identifier, the start time, the files on disk and
  the dialogs are what they were: a recording in progress is neither stopped nor saved.
\<close>

theorem on_disconnection_frame:
  "status_label (on_disconnection w) = ''Status: Not connected to Muse 2''
   \<and> text_field_frame (on_disconnection w) = map_option (\<lambda>_. False) (text_field_frame w)
   \<and> (\<forall>k. btn_state (buttons (on_disconnection w) k) = DISABLED)
   \<and> recording (on_disconnection w) = recording w
   \<and> stopwatch_running (on_disconnection w) = stopwatch_running w
   \<and> data (on_disconnection w) = data w
   \<and> durations (on_disconnection w) = durations w
   \<and> participant_id (on_disconnection w) = participant_id w
   \<and> start_time (on_disconnection w) = start_time w
   \<and> files (on_disconnection w) = files w
   \<and> dialogs (on_disconnection w) = dialogs w"
  by (simp add: on_disconnection_eq)

subsection \<open>Names, the dict and the formats\<close>

lemma csv_not_duration: "csv_filename w key \<noteq> duration_filename w"
  by (cases key) (simp_all add: csv_filename_def duration_filename_def)

lemma key_str_inj: "key_str a = key_str b \<Longrightarrow> a = b"
  by (cases a; cases b; simp)

lemma csv_filename_inj: "csv_filename w a = csv_filename w b \<Longrightarrow> a = b"
  by (simp add: csv_filename_def key_str_inj)

lemmas persist_defs =
  save_data_def write_file_def update_duration_file_def showinfo_def
  csv_filename_def duration_filename_def duration_text_def pid_str_def

lemmas toggle_defs =
  toggle_recording_def reset_stopwatch_def config_state_def config_text_def
  start_stopwatch_def replace_underscore_key

lemma save_data_ok:
  assumes "start_time w = Some t0" "writable w (csv_filename w key)" "writable w (duration_filename w)"
  shows "save_data key now w =
    (Returned,
     w\<lparr>durations := dict_set key (now - t0) (durations w),
       files := (files w)
          (csv_filename w key \<mapsto> Csv (csv_header # csv_rows (data w)),
           duration_filename w \<mapsto>
             Plain (''Participant ID: '' @ pid_str w @ newline
                    @ concat (map duration_line (dict_set key (now - t0) (durations w))))),
       dialogs := dialogs w @
          [(''Recording Saved'', key_str key @ '' data saved to '' @ csv_filename w key)]\<rparr>)"
  using assms by (simp add: persist_defs Let_def)

lemma get_next_key_not_Inl: "get_next_key k \<noteq> Inl e"
  by (cases k) (simp_all add: get_next_key_simps)

lemma toggle_stop:
  assumes "recording w" "start_time w = Some t0"
    "writable w (csv_filename w key)" "writable w (duration_filename w)"
  shows "toggle_recording key now w =
    (Returned,
     w\<lparr>recording := False, stopwatch_running := False,
       durations := dict_set key (now - t0) (durations w),
       files := (files w)
          (csv_filename w key \<mapsto> Csv (csv_header # csv_rows (data w)),
           duration_filename w \<mapsto>
             Plain (''Participant ID: '' @ pid_str w @ newline
                    @ concat (map duration_line (dict_set key (now - t0) (durations w))))),
       dialogs := dialogs w @
          [(''Recording Saved'', key_str key @ '' data saved to '' @ csv_filename w key)],
       stopwatch_label := ''Stopwatch: 00:00:00'',
       buttons :=
         (let b = (buttons w)(key := (buttons w key)
                    \<lparr>btn_text := ''Record '' @ key_str key, btn_state := DISABLED\<rparr>)
          in case get_next_key key of
               Inr (Some next_key) \<Rightarrow> b(next_key := (b next_key)\<lparr>btn_state := NORMAL\<rparr>)
             | _ \<Rightarrow> b)\<rparr>)"
  using assms get_next_key_not_Inl [of key]
  by (simp add: toggle_defs persist_defs Let_def split: sum.split option.split)

lemma toggle_start:
  assumes "\<not> recording w"
  shows "toggle_recording key now w =
    (Returned,
     w\<lparr>recording := True, start_time := Some now, data := [],
       stopwatch_running := True,
       spawned := spawned w @ [Update_stopwatch, Record_data],
       buttons := (buttons w)(key := (buttons w key)\<lparr>btn_text := ''Stop Recording''\<rparr>)\<rparr>)"
  using assms by (simp add: toggle_defs)


lemma record_data_append:
  "recording w \<Longrightarrow>
     record_data ps w = w\<lparr>data := data w @ map (\<lambda>(sample, timestamp). timestamp # sample) ps\<rparr>"
  by (induction ps arbitrary: w) (simp_all add: record_data_iter_def split: prod.split)

lemma record_data_stopped: "\<not> recording w \<Longrightarrow> record_data ps w = w"
  by (cases ps) (simp_all add: record_data_iter_def)

lemma update_stopwatch_stopped: "\<not> stopwatch_running w \<Longrightarrow> update_stopwatch t0 ts w = w"
  by (cases ts) (simp_all add: update_stopwatch_iter_def)

text \<open>
  The two halves of a pass, one right after the other, are the whole pass; and a pass
  that was waiting when the flag was cleared still appends its row.
\<close>

lemma record_data_halves:
  "recording w \<Longrightarrow>
     record_data_append p (record_data_enter w) = record_data [p] w"
  by (cases p) (simp add: record_data_enter_def record_data_append_def record_data_iter_def)

lemma record_data_late_row:
  "0 < pulling w \<Longrightarrow>
     data (record_data_append (sample, timestamp) (w\<lparr>recording := False\<rparr>))
       = data w @ [timestamp # sample]"
  by (simp add: record_data_append_def)

lemma toggle_stop_csv:
  assumes "recording w" "start_time w = Some t0" "writable w (csv_filename w key)"
  shows "files (snd (toggle_recording key now w)) (csv_filename w key)
           = Some (Csv (csv_header # csv_rows (data w)))"
  using assms csv_not_duration [of w key] get_next_key_not_Inl [of key]
  by (simp add: toggle_defs persist_defs Let_def split: sum.split option.split)

subsection \<open>The stop action\<close>

text \<open>
  C5. A stop action on segment \<open>key\<close> (the recording flag is set, the start time is
  there, and the two files can be opened): the call returns; the recording flag and the
  stopwatch flag are cleared, so that the sample-pulling loop and the stopwatch loop make
  no further pass; \<open>save_data\<close> has run for \<open>key\<close> and returned, and the files, the
  durations and the confirmation dialog are its; the stopwatch label reads 00:00:00; the
  button of \<open>key\<close> is disabled; the button of the next key, when there is one, is
  enabled; every other button is as it was. Personality3 has no next key, so stopping it
  enables nothing.
\<close>

theorem stop_action_effects:
  assumes "recording w" and "start_time w = Some t0"
    and "writable w (csv_filename w key)" and "writable w (duration_filename w)"
  shows "fst (toggle_recording key now w) = Returned
    \<and> \<not> recording (snd (toggle_recording key now w))
    \<and> \<not> stopwatch_running (snd (toggle_recording key now w))
    \<and> record_data ps (snd (toggle_recording key now w)) = snd (toggle_recording key now w)
    \<and> update_stopwatch t ts (snd (toggle_recording key now w)) = snd (toggle_recording key now w)
    \<and> fst (save_data key now (w\<lparr>recording := False, stopwatch_running := False\<rparr>)) = Returned
    \<and> files (snd (toggle_recording key now w))
        = files (snd (save_data key now (w\<lparr>recording := False, stopwatch_running := False\<rparr>)))
    \<and> durations (snd (toggle_recording key now w))
        = durations (snd (save_data key now (w\<lparr>recording := False, stopwatch_running := False\<rparr>)))
    \<and> dialogs (snd (toggle_recording key now w))
        = dialogs w @ [(''Recording Saved'', key_str key @ '' data saved to '' @ csv_filename w key)]
    \<and> stopwatch_label (snd (toggle_recording key now w)) = ''Stopwatch: 00:00:00''
    \<and> btn_state (buttons (snd (toggle_recording key now w)) key) = DISABLED
    \<and> (\<forall>n. get_next_key key = Inr (Some n) \<longrightarrow>
          btn_state (buttons (snd (toggle_recording key now w)) n) = NORMAL)
    \<and> (\<forall>k. k \<noteq> key \<and> get_next_key key \<noteq> Inr (Some k) \<longrightarrow>
          buttons (snd (toggle_recording key now w)) k = buttons w k)
    \<and> get_next_key Personality3 = Inr None"
proof -
  let ?w' = "snd (toggle_recording key now w)"
  let ?w0 = "w\<lparr>recording := False, stopwatch_running := False\<rparr>"
  have names: "csv_filename ?w0 key = csv_filename w key" "duration_filename ?w0 = duration_filename w"
    by (simp_all add: csv_filename_def duration_filename_def pid_str_def)
  have sv: "save_data key now ?w0 =
    (Returned,
     ?w0\<lparr>durations := dict_set key (now - t0) (durations ?w0),
       files := (files ?w0)
          (csv_filename ?w0 key \<mapsto> Csv (csv_header # csv_rows (data ?w0)),
           duration_filename ?w0 \<mapsto>
             Plain (''Participant ID: '' @ pid_str ?w0 @ newline
                    @ concat (map duration_line (dict_set key (now - t0) (durations ?w0))))),
       dialogs := dialogs ?w0 @
          [(''Recording Saved'', key_str key @ '' data saved to '' @ csv_filename ?w0 key)]\<rparr>)"
    by (rule save_data_ok) (use assms names in simp_all)
  note ts = toggle_stop [OF assms, of now]
  have flags: "\<not> recording ?w'" "\<not> stopwatch_running ?w'"
    by (simp_all add: ts)
  have next_ne: "get_next_key key \<noteq> Inr (Some key)"
    by (cases key) (simp_all add: get_next_key_simps)
  have "fst (toggle_recording key now w) = Returned" by (simp add: ts)
  moreover have "record_data ps ?w' = ?w'" by (rule record_data_stopped) (rule flags)
  moreover have "update_stopwatch t ts ?w' = ?w'" by (rule update_stopwatch_stopped) (rule flags)
  moreover have "fst (save_data key now ?w0) = Returned" by (simp add: sv)
  moreover have "files ?w' = files (snd (save_data key now ?w0))"
    by (simp add: ts sv names pid_str_def)
  moreover have "durations ?w' = durations (snd (save_data key now ?w0))"
    by (simp add: ts sv)
  moreover have "dialogs ?w' = dialogs w @
      [(''Recording Saved'', key_str key @ '' data saved to '' @ csv_filename w key)]"
    by (simp add: ts)
  moreover have "stopwatch_label ?w' = ''Stopwatch: 00:00:00''" by (simp add: ts)
  moreover have "btn_state (buttons ?w' key) = DISABLED"
    using next_ne by (simp add: ts Let_def split: sum.split option.split)
  moreover have "\<forall>n. get_next_key key = Inr (Some n) \<longrightarrow> btn_state (buttons ?w' n) = NORMAL"
    by (simp add: ts Let_def)
  moreover have "\<forall>k. k \<noteq> key \<and> get_next_key key \<noteq> Inr (Some k) \<longrightarrow> buttons ?w' k = buttons w k"
    by (simp add: ts Let_def split: sum.split option.split)
  moreover have "get_next_key Personality3 = Inr None" by (simp add: get_next_key_simps)
  ultimately show ?thesis using flags by simp
qed


lemma toggle_start_names:
  "\<not> recording w \<Longrightarrow> csv_filename (snd (toggle_recording k now w)) key = csv_filename w key"
  "\<not> recording w \<Longrightarrow> duration_filename (snd (toggle_recording k now w)) = duration_filename w"
  by (simp_all add: toggle_start csv_filename_def duration_filename_def pid_str_def)

lemma record_data_names:
  "csv_filename (record_data ps w) key = csv_filename w key"
  "duration_filename (record_data ps w) = duration_filename w"
  by (cases "recording w";
      simp add: record_data_append record_data_stopped csv_filename_def duration_filename_def pid_str_def)+

subsection \<open>The start action\<close>

text \<open>
  C6. A start action on segment \<open>key\<close> (the recording flag is clear): the call returns;
  the recording flag is set, the start time is the clock reading, the sample buffer is
  empty, the stopwatch flag is set, a stopwatch thread and a sample-pulling thread are
  spawned, and the pressed button reads "Stop Recording" with its state unchanged. The
  other buttons, the durations, the files and the participant identifier are unchanged.
  Whatever the buffer held before, the data file written by the stop that follows holds
  the header and the rows pulled after this start, and nothing else.
\<close>

theorem start_action_effects:
  assumes "\<not> recording w"
  shows "fst (toggle_recording key now w) = Returned
    \<and> recording (snd (toggle_recording key now w))
    \<and> start_time (snd (toggle_recording key now w)) = Some now
    \<and> data (snd (toggle_recording key now w)) = []
    \<and> stopwatch_running (snd (toggle_recording key now w))
    \<and> spawned (snd (toggle_recording key now w)) = spawned w @ [Update_stopwatch, Record_data]
    \<and> btn_text (buttons (snd (toggle_recording key now w)) key) = ''Stop Recording''
    \<and> btn_state (buttons (snd (toggle_recording key now w)) key) = btn_state (buttons w key)
    \<and> (\<forall>k. k \<noteq> key \<longrightarrow> buttons (snd (toggle_recording key now w)) k = buttons w k)
    \<and> durations (snd (toggle_recording key now w)) = durations w
    \<and> files (snd (toggle_recording key now w)) = files w
    \<and> participant_id (snd (toggle_recording key now w)) = participant_id w
    \<and> (\<forall>ps k2 t1. writable w (csv_filename w k2) \<longrightarrow>
          files (snd (toggle_recording k2 t1 (record_data ps (snd (toggle_recording key now w)))))
            (csv_filename w k2)
          = Some (Csv (csv_header # csv_rows (map (\<lambda>(sample, timestamp). timestamp # sample) ps))))"
proof -
  let ?w' = "snd (toggle_recording key now w)"
  note st = toggle_start [OF assms, of key now]
  have later: "files (snd (toggle_recording k2 t1 (record_data ps ?w'))) (csv_filename w k2)
          = Some (Csv (csv_header # csv_rows (map (\<lambda>(sample, timestamp). timestamp # sample) ps)))"
    if wr: "writable w (csv_filename w k2)" for ps k2 t1
  proof -
    let ?w2 = "record_data ps ?w'"
    have rec: "recording ?w'" and st': "start_time ?w' = Some now" and da: "data ?w' = []"
      and wr': "writable ?w' = writable w"
      by (simp_all add: st)
    have w2: "?w2 = ?w'\<lparr>data := data ?w' @ map (\<lambda>(sample, timestamp). timestamp # sample) ps\<rparr>"
      by (rule record_data_append) (rule rec)
    have nm: "csv_filename ?w2 k2 = csv_filename w k2"
      by (simp add: record_data_names toggle_start_names assms)
    have a: "recording ?w2" by (subst w2) (simp add: rec)
    have b: "start_time ?w2 = Some now" by (subst w2) (simp add: st')
    have "writable ?w2 = writable w" by (subst w2) (simp add: wr')
    then have c: "writable ?w2 (csv_filename ?w2 k2)" using wr by (simp add: nm)
    have d: "data ?w2 = map (\<lambda>(sample, timestamp). timestamp # sample) ps"
      by (subst w2) (simp add: da)
    from toggle_stop_csv [OF a b c, of t1] show ?thesis by (simp only: nm d)
  qed
  show ?thesis using later by (simp add: st)
qed

subsection \<open>The data file\<close>

text \<open>
  C2. A stop action on key \<open>key\<close> with participant identifier \<open>P\<close> leaves in the file
  \<open>P_key.csv\<close> the header row timestamps, TP9, AF7, AF8, TP10, Right AUX followed by
  the rows of the buffer, in the buffer's order, each cell the buffered number itself.
  The sample-pulling loop appends to the buffer one row per sample pulled, in the order
  pulled, the timestamp first and then the channel values; with five channel values the
  row has six cells.
\<close>

theorem saved_csv_file:
  assumes "recording w" and "start_time w = Some t0" and "participant_id w = Some P"
    and "writable w (P @ ''_'' @ key_str key @ ''.csv'')"
  shows "files (snd (toggle_recording key now w)) (P @ ''_'' @ key_str key @ ''.csv'')
           = Some (Csv ([Text ''timestamps'', Text ''TP9'', Text ''AF7'', Text ''AF8'',
                         Text ''TP10'', Text ''Right AUX'']
                        # map (map Number) (data w)))
    \<and> data (record_data ps w) = data w @ map (\<lambda>(sample, timestamp). timestamp # sample) ps
    \<and> (\<forall>sample timestamp. length sample = 5 \<longrightarrow>
          length (last (data (record_data [(sample, timestamp)] w))) = 6)"
proof -
  have nm: "csv_filename w key = P @ ''_'' @ key_str key @ ''.csv''"
    using assms(3) by (simp add: csv_filename_def pid_str_def)
  have "writable w (csv_filename w key)" using assms(4) by (simp only: nm)
  from toggle_stop_csv [OF assms(1,2) this, of now]
  have "files (snd (toggle_recording key now w)) (P @ ''_'' @ key_str key @ ''.csv'')
           = Some (Csv (csv_header # csv_rows (data w)))"
    by (simp only: nm)
  then show ?thesis
    by (simp add: csv_header_def csv_rows_def record_data_append assms(1) record_data_iter_def)
qed


lemma dict_set_new: "k \<notin> fst ` set d \<Longrightarrow> dict_set k v d = d @ [(k, v)]"
  by (induction d) auto

lemma dict_set_keys:
  "map fst (dict_set k v d) = (if k \<in> fst ` set d then map fst d else map fst d @ [k])"
proof (induction d)
  case Nil
  show ?case by simp
next
  case (Cons p d)
  show ?case
  proof (cases "fst p = k")
    case True
    then show ?thesis by (cases p) simp
  next
    case False
    then show ?thesis using Cons.IH by (cases p) simp
  qed
qed

lemma map_of_dict_set: "map_of (dict_set k v d) k' = (if k' = k then Some v else map_of d k')"
  by (induction d) auto

lemma round_half_even_small: "0 \<le> q \<Longrightarrow> q < 1 / 2 \<Longrightarrow> round_half_even q = 0"
proof -
  assume a: "0 \<le> q" "q < 1 / 2"
  then have "\<lfloor>q\<rfloor> = 0" by (simp add: floor_eq_iff)
  then show ?thesis using a by (simp add: round_half_even_def)
qed

lemma format_2f_zero: "0 \<le> d \<Longrightarrow> d < 1 / 200 \<Longrightarrow> format_2f d = ''0.00''"
proof -
  assume a: "0 \<le> d" "d < 1 / 200"
  then have "round_half_even (\<bar>d\<bar> * 100) = 0"
    by (intro round_half_even_small) simp_all
  then show ?thesis using a
    by (simp add: format_2f_def show_nat.simps digit_char_def)
qed

subsection \<open>A recording with no sample\<close>

text \<open>
  C4. A segment started and then stopped with no sample pulled in between: the stop
  returns, the data file holds the header row and no other row, and the duration file is
  rewritten from the durations with \<open>key\<close> set to the elapsed time. When \<open>key\<close> had no
  duration yet, that is one more line, the last one, for \<open>key\<close>; and an elapsed time
  from 0 up to (not including) 0.005 seconds is printed as 0.00.
\<close>

theorem empty_recording_saved:
  assumes "\<not> recording w"
    and "writable w (csv_filename w key)" and "writable w (duration_filename w)"
  shows "fst (toggle_recording key t1 (snd (toggle_recording key t0 w))) = Returned
    \<and> files (snd (toggle_recording key t1 (snd (toggle_recording key t0 w)))) (csv_filename w key)
        = Some (Csv [[Text ''timestamps'', Text ''TP9'', Text ''AF7'', Text ''AF8'',
                      Text ''TP10'', Text ''Right AUX'']])
    \<and> files (snd (toggle_recording key t1 (snd (toggle_recording key t0 w)))) (duration_filename w)
        = Some (Plain (''Participant ID: '' @ pid_str w @ newline
                  @ concat (map duration_line (dict_set key (t1 - t0) (durations w)))))
    \<and> (key \<notin> fst ` set (durations w) \<longrightarrow>
          concat (map duration_line (dict_set key (t1 - t0) (durations w)))
          = concat (map duration_line (durations w))
            @ key_str key @ '': '' @ format_2f (t1 - t0) @ '' seconds'' @ newline)
    \<and> (0 \<le> t1 - t0 \<and> t1 - t0 < 1 / 200 \<longrightarrow> format_2f (t1 - t0) = ''0.00'')"
proof -
  let ?w1 = "snd (toggle_recording key t0 w)"
  note st = toggle_start [OF assms(1), of key t0]
  have a: "recording ?w1" and b: "start_time ?w1 = Some t0" and da: "data ?w1 = []"
    and du: "durations ?w1 = durations w" and wr: "writable ?w1 = writable w"
    and pid: "pid_str ?w1 = pid_str w"
    by (simp_all add: st pid_str_def)
  have nm: "csv_filename ?w1 key = csv_filename w key" "duration_filename ?w1 = duration_filename w"
    by (simp_all add: toggle_start_names assms(1))
  have c: "writable ?w1 (csv_filename ?w1 key)" and d: "writable ?w1 (duration_filename ?w1)"
    using assms(2,3) by (simp_all add: nm wr)
  note ts = toggle_stop [OF a b c d, of t1]
  have 1: "fst (toggle_recording key t1 ?w1) = Returned" by (simp add: ts)
  have 2: "files (snd (toggle_recording key t1 ?w1)) (csv_filename w key)
        = Some (Csv [[Text ''timestamps'', Text ''TP9'', Text ''AF7'', Text ''AF8'',
                      Text ''TP10'', Text ''Right AUX'']])"
    using csv_not_duration [of w key]
    by (simp add: ts nm da csv_header_def csv_rows_def)
  have 3: "files (snd (toggle_recording key t1 ?w1)) (duration_filename w)
        = Some (Plain (''Participant ID: '' @ pid_str w @ newline
                  @ concat (map duration_line (dict_set key (t1 - t0) (durations w)))))"
    by (simp add: ts nm du pid)
  have 4: "key \<notin> fst ` set (durations w) \<longrightarrow>
          concat (map duration_line (dict_set key (t1 - t0) (durations w)))
          = concat (map duration_line (durations w))
            @ key_str key @ '': '' @ format_2f (t1 - t0) @ '' seconds'' @ newline"
    by (simp add: dict_set_new duration_line_def)
  have 5: "0 \<le> t1 - t0 \<and> t1 - t0 < 1 / 200 \<longrightarrow> format_2f (t1 - t0) = ''0.00''"
    using format_2f_zero [of "t1 - t0"] by blast
  from 1 2 3 4 5 show ?thesis by blast
qed


lemma toggle_stop_csv_fails:
  assumes "recording w" "start_time w = Some t0" "\<not> writable w (csv_filename w key)"
  shows "toggle_recording key now w =
    (Raised (OSError (csv_filename w key)),
     w\<lparr>recording := False, stopwatch_running := False,
       durations := dict_set key (now - t0) (durations w)\<rparr>)"
  using assms by (simp add: toggle_recording_def persist_defs Let_def)

lemma toggle_stop_duration_fails:
  assumes "recording w" "start_time w = Some t0"
    "writable w (csv_filename w key)" "\<not> writable w (duration_filename w)"
  shows "toggle_recording key now w =
    (Raised (OSError (duration_filename w)),
     w\<lparr>recording := False, stopwatch_running := False,
       durations := dict_set key (now - t0) (durations w),
       files := (files w)(csv_filename w key \<mapsto> Csv (csv_header # csv_rows (data w)))\<rparr>)"
  using assms by (simp add: toggle_recording_def persist_defs Let_def)

lemma toggle_stop_propagates:
  assumes "recording w"
    and "fst (save_data key now (w\<lparr>recording := False, stopwatch_running := False\<rparr>)) = Raised e"
  shows "toggle_recording key now w
           = save_data key now (w\<lparr>recording := False, stopwatch_running := False\<rparr>)"
  using assms
  by (cases "save_data key now (w\<lparr>recording := False, stopwatch_running := False\<rparr>)")
     (simp add: toggle_recording_def)

subsection \<open>Errors while saving\<close>

text \<open>
  C8. In a stop action, an exception of \<open>save_data\<close> is the outcome of
  \<open>toggle_recording\<close>, which does nothing after it. When the data file cannot be
  opened the durations already hold the new entry. When the data file can be opened and
  the duration file cannot, the data file is on disk with the new rows, the durations
  hold the new entry, and the duration file is what it was before: the two are out of
  step. In every failing case the buttons, the stopwatch label and the dialogs are
  untouched, the recording flag stays cleared and the durations stay changed: nothing is
  rolled back.
\<close>

theorem save_error_not_atomic:
  assumes "recording w" and "start_time w = Some t0"
  shows "(\<forall>e. fst (save_data key now (w\<lparr>recording := False, stopwatch_running := False\<rparr>)) = Raised e
            \<longrightarrow> toggle_recording key now w
                  = save_data key now (w\<lparr>recording := False, stopwatch_running := False\<rparr>))
    \<and> (\<not> writable w (csv_filename w key) \<longrightarrow>
          toggle_recording key now w =
            (Raised (OSError (csv_filename w key)),
             w\<lparr>recording := False, stopwatch_running := False,
               durations := dict_set key (now - t0) (durations w)\<rparr>))
    \<and> (writable w (csv_filename w key) \<and> \<not> writable w (duration_filename w) \<longrightarrow>
          toggle_recording key now w =
            (Raised (OSError (duration_filename w)),
             w\<lparr>recording := False, stopwatch_running := False,
               durations := dict_set key (now - t0) (durations w),
               files := (files w)(csv_filename w key \<mapsto> Csv (csv_header # csv_rows (data w)))\<rparr>)
          \<and> files (snd (toggle_recording key now w)) (csv_filename w key)
              = Some (Csv (csv_header # csv_rows (data w)))
          \<and> files (snd (toggle_recording key now w)) (duration_filename w)
              = files w (duration_filename w)
          \<and> map_of (durations (snd (toggle_recording key now w))) key = Some (now - t0))
    \<and> (\<forall>e. fst (toggle_recording key now w) = Raised e \<longrightarrow>
          buttons (snd (toggle_recording key now w)) = buttons w
          \<and> stopwatch_label (snd (toggle_recording key now w)) = stopwatch_label w
          \<and> dialogs (snd (toggle_recording key now w)) = dialogs w
          \<and> \<not> recording (snd (toggle_recording key now w))
          \<and> durations (snd (toggle_recording key now w)) = dict_set key (now - t0) (durations w))"
proof -
  have 1: "\<forall>e. fst (save_data key now (w\<lparr>recording := False, stopwatch_running := False\<rparr>)) = Raised e
            \<longrightarrow> toggle_recording key now w
                  = save_data key now (w\<lparr>recording := False, stopwatch_running := False\<rparr>)"
    using toggle_stop_propagates [OF assms(1)] by blast
  have 2: "\<not> writable w (csv_filename w key) \<longrightarrow>
          toggle_recording key now w =
            (Raised (OSError (csv_filename w key)),
             w\<lparr>recording := False, stopwatch_running := False,
               durations := dict_set key (now - t0) (durations w)\<rparr>)"
    using toggle_stop_csv_fails [OF assms] by blast
  have 3: "writable w (csv_filename w key) \<and> \<not> writable w (duration_filename w) \<longrightarrow>
          toggle_recording key now w =
            (Raised (OSError (duration_filename w)),
             w\<lparr>recording := False, stopwatch_running := False,
               durations := dict_set key (now - t0) (durations w),
               files := (files w)(csv_filename w key \<mapsto> Csv (csv_header # csv_rows (data w)))\<rparr>)
          \<and> files (snd (toggle_recording key now w)) (csv_filename w key)
              = Some (Csv (csv_header # csv_rows (data w)))
          \<and> files (snd (toggle_recording key now w)) (duration_filename w)
              = files w (duration_filename w)
          \<and> map_of (durations (snd (toggle_recording key now w))) key = Some (now - t0)"
  proof
    assume a: "writable w (csv_filename w key) \<and> \<not> writable w (duration_filename w)"
    note f = toggle_stop_duration_fails [OF assms, of key now]
    show "toggle_recording key now w =
            (Raised (OSError (duration_filename w)),
             w\<lparr>recording := False, stopwatch_running := False,
               durations := dict_set key (now - t0) (durations w),
               files := (files w)(csv_filename w key \<mapsto> Csv (csv_header # csv_rows (data w)))\<rparr>)
          \<and> files (snd (toggle_recording key now w)) (csv_filename w key)
              = Some (Csv (csv_header # csv_rows (data w)))
          \<and> files (snd (toggle_recording key now w)) (duration_filename w)
              = files w (duration_filename w)
          \<and> map_of (durations (snd (toggle_recording key now w))) key = Some (now - t0)"
      using a csv_not_duration [of w key] by (simp add: f map_of_dict_set)
  qed
  have 4: "\<forall>e. fst (toggle_recording key now w) = Raised e \<longrightarrow>
          buttons (snd (toggle_recording key now w)) = buttons w
          \<and> stopwatch_label (snd (toggle_recording key now w)) = stopwatch_label w
          \<and> dialogs (snd (toggle_recording key now w)) = dialogs w
          \<and> \<not> recording (snd (toggle_recording key now w))
          \<and> durations (snd (toggle_recording key now w)) = dict_set key (now - t0) (durations w)"
  proof (cases "writable w (csv_filename w key)")
    case False
    then show ?thesis by (simp add: toggle_stop_csv_fails [OF assms])
  next
    case c: True
    show ?thesis
    proof (cases "writable w (duration_filename w)")
      case False
      then show ?thesis by (simp add: toggle_stop_duration_fails [OF assms c])
    next
      case True
      then show ?thesis by (simp add: toggle_stop [OF assms c])
    qed
  qed
  from 1 2 3 4 show ?thesis by blast
qed


subsection \<open>One flag for all segments\<close>

text \<open>
  C10. A recording started with the button of \<open>k1\<close>, samples \<open>ps\<close> pulled, then a click
  on the enabled button of \<open>k2\<close>: the click runs the stop branch for \<open>k2\<close>. The recording
  is stopped, the rows pulled are saved in the data file of \<open>k2\<close>, the elapsed time is
  stored under \<open>k2\<close>, the confirmation names \<open>k2\<close> and the button of \<open>k2\<close> is disabled.
  When \<open>k1\<close> is another key, its data file and its duration are untouched and its button
  still reads "Stop Recording".
\<close>

theorem shared_flag_stop:
  assumes "\<not> recording w"
    and "btn_state (buttons w k1) = NORMAL" and "btn_state (buttons w k2) = NORMAL"
    and "writable w (csv_filename w k2)" and "writable w (duration_filename w)"
  shows "recording (record_data ps (step (Press k1 t0) w))
    \<and> step (Press k2 t1) (record_data ps (step (Press k1 t0) w))
        = snd (toggle_recording k2 t1 (record_data ps (snd (toggle_recording k1 t0 w))))
    \<and> \<not> recording (step (Press k2 t1) (record_data ps (step (Press k1 t0) w)))
    \<and> files (step (Press k2 t1) (record_data ps (step (Press k1 t0) w))) (csv_filename w k2)
        = Some (Csv (csv_header # csv_rows (map (\<lambda>(sample, timestamp). timestamp # sample) ps)))
    \<and> map_of (durations (step (Press k2 t1) (record_data ps (step (Press k1 t0) w)))) k2
        = Some (t1 - t0)
    \<and> dialogs (step (Press k2 t1) (record_data ps (step (Press k1 t0) w)))
        = dialogs w @ [(''Recording Saved'', key_str k2 @ '' data saved to '' @ csv_filename w k2)]
    \<and> btn_state (buttons (step (Press k2 t1) (record_data ps (step (Press k1 t0) w))) k2) = DISABLED
    \<and> (k1 \<noteq> k2 \<longrightarrow>
          files (step (Press k2 t1) (record_data ps (step (Press k1 t0) w))) (csv_filename w k1)
            = files w (csv_filename w k1)
          \<and> map_of (durations (step (Press k2 t1) (record_data ps (step (Press k1 t0) w)))) k1
            = map_of (durations w) k1
          \<and> btn_text (buttons (step (Press k2 t1) (record_data ps (step (Press k1 t0) w))) k1)
            = ''Stop Recording'')"
proof -
  let ?w1 = "snd (toggle_recording k1 t0 w)"
  let ?w2 = "record_data ps ?w1"
  let ?w3 = "snd (toggle_recording k2 t1 ?w2)"
  note st = toggle_start [OF assms(1), of k1 t0]
  have s1: "step (Press k1 t0) w = ?w1"
    using assms(2) by (simp add: step_def)
  have rec1: "recording ?w1" by (simp add: st)
  have w2: "?w2 = ?w1\<lparr>data := data ?w1 @ map (\<lambda>(sample, timestamp). timestamp # sample) ps\<rparr>"
    by (rule record_data_append) (rule rec1)
  have w2': "?w2 = w\<lparr>recording := True, start_time := Some t0,
       data := map (\<lambda>(sample, timestamp). timestamp # sample) ps,
       stopwatch_running := True,
       spawned := spawned w @ [Update_stopwatch, Record_data],
       buttons := (buttons w)(k1 := (buttons w k1)\<lparr>btn_text := ''Stop Recording''\<rparr>)\<rparr>"
    by (subst w2) (simp add: st)
  have nm: "csv_filename ?w2 k = csv_filename w k" "duration_filename ?w2 = duration_filename w" for k
    by (simp_all add: record_data_names toggle_start_names assms(1))
  have a: "recording ?w2" and b: "start_time ?w2 = Some t0"
    and en: "btn_state (buttons ?w2 k2) = NORMAL"
    using assms(2,3) by (auto simp: w2')
  have "writable ?w2 = writable w" by (simp add: w2')
  then have c: "writable ?w2 (csv_filename ?w2 k2)" and d: "writable ?w2 (duration_filename ?w2)"
    using assms(4,5) by (simp_all add: nm)
  have s2: "step (Press k2 t1) ?w2 = ?w3"
    using en by (simp add: step_def)
  note ts = toggle_stop [OF a b c d, of t1]
  have next_ne: "get_next_key k2 \<noteq> Inr (Some k2)"
    by (cases k2) (simp_all add: get_next_key_simps)
  have 1: "\<not> recording ?w3" by (simp add: ts)
  have 2: "files ?w3 (csv_filename w k2)
        = Some (Csv (csv_header # csv_rows (map (\<lambda>(sample, timestamp). timestamp # sample) ps)))"
    using csv_not_duration [of w k2] by (simp add: ts nm) (simp add: w2')
  have 3: "map_of (durations ?w3) k2 = Some (t1 - t0)"
    by (simp add: ts map_of_dict_set)
  have 4: "dialogs ?w3
        = dialogs w @ [(''Recording Saved'', key_str k2 @ '' data saved to '' @ csv_filename w k2)]"
    by (simp add: ts nm) (simp add: w2')
  have 5: "btn_state (buttons ?w3 k2) = DISABLED"
    using next_ne by (simp add: ts Let_def split: sum.split option.split)
  have 6: "files ?w3 (csv_filename w k1) = files w (csv_filename w k1)
          \<and> map_of (durations ?w3) k1 = map_of (durations w) k1
          \<and> btn_text (buttons ?w3 k1) = ''Stop Recording''" if ne: "k1 \<noteq> k2"
  proof -
    have "csv_filename w k1 \<noteq> csv_filename w k2"
      using ne csv_filename_inj by blast
    then have "files ?w3 (csv_filename w k1) = files w (csv_filename w k1)"
      using csv_not_duration [of w k1] by (simp add: ts nm) (simp add: w2')
    moreover have "map_of (durations ?w3) k1 = map_of (durations w) k1"
      using ne by (simp add: ts map_of_dict_set) (simp add: w2')
    moreover have "btn_text (buttons ?w3 k1) = ''Stop Recording''"
      using ne by (simp add: ts Let_def split: sum.split option.split) (simp add: w2')
    ultimately show ?thesis by blast
  qed
  show ?thesis
    unfolding s1 s2 using a 1 2 3 4 5 6 by blast
qed

lemma monitor_iter_raises:
  "monitor_iter Resolve_raises w =
     (if connected w
      then ([Call_on_disconnection, Sleep 1], (on_disconnection w)\<lparr>connected := False\<rparr>)
      else ([Sleep 1], w))"
  by (simp add: monitor_iter_def monitor_try_def)

lemma monitor_iter_no_stream:
  "monitor_iter (Streams [] b) w =
     (if connected w
      then ([Call_on_disconnection, Sleep 1], (on_disconnection w)\<lparr>connected := False\<rparr>)
      else ([Sleep 1], w))"
  by (simp add: monitor_iter_def monitor_try_def)

lemma alternates_append:
  "alternates c (es @ es') = (alternates c es \<and> alternates (flag_after c es) es')"
  by (induction c es rule: alternates.induct) auto

lemma flag_after_append: "flag_after c (es @ es') = flag_after (flag_after c es) es'"
  by (induction c es rule: flag_after.induct) auto

lemma monitor_iter_signals:
  "alternates (connected w) (fst (monitor_iter p w))
   \<and> flag_after (connected w) (fst (monitor_iter p w)) = connected (snd (monitor_iter p w))
   \<and> length (filter (\<lambda>e. e = Sleep 1) (fst (monitor_iter p w))) = 1
   \<and> dialogs (snd (monitor_iter p w)) = dialogs w"
  by (cases p)
     (auto simp: monitor_iter_def monitor_try_def Let_def on_disconnection_eq on_connection_def
        show_text_field_def split: list.split)

lemma monitor_loop_signals:
  "alternates (connected w) (fst (monitor_muse_connection ps w))
   \<and> flag_after (connected w) (fst (monitor_muse_connection ps w))
       = connected (snd (monitor_muse_connection ps w))
   \<and> length (filter (\<lambda>e. e = Sleep 1) (fst (monitor_muse_connection ps w))) = length ps
   \<and> dialogs (snd (monitor_muse_connection ps w)) = dialogs w"
proof (induction ps arbitrary: w)
  case Nil
  show ?case by simp
next
  case (Cons p ps)
  obtain es w1 where it: "monitor_iter p w = (es, w1)" by (cases "monitor_iter p w")
  obtain es' w2 where lp: "monitor_muse_connection ps w1 = (es', w2)"
    by (cases "monitor_muse_connection ps w1")
  from monitor_iter_signals [of w p] it
  have a: "alternates (connected w) es" "flag_after (connected w) es = connected w1"
    "length (filter (\<lambda>e. e = Sleep 1) es) = 1" "dialogs w1 = dialogs w"
    by simp_all
  from Cons.IH [of w1] lp
  have b: "alternates (connected w1) es'" "flag_after (connected w1) es' = connected w2"
    "length (filter (\<lambda>e. e = Sleep 1) es') = length ps" "dialogs w2 = dialogs w1"
    by simp_all
  show ?case
    using a b by (simp add: it lp alternates_append flag_after_append)
qed

lemma monitor_loop_append:
  "monitor_muse_connection (ps @ qs) w =
     (fst (monitor_muse_connection ps w) @ fst (monitor_muse_connection qs (snd (monitor_muse_connection ps w))),
      snd (monitor_muse_connection qs (snd (monitor_muse_connection ps w))))"
  by (induction ps arbitrary: w) (simp_all split: prod.split)

subsection \<open>The monitor loop\<close>

text \<open>
  C7. A pass of the monitor loop in which the discovery call raises ends exactly as a
  pass in which it returns no stream: when the loop's flag says connected, the disconnect
  handler is called once, the flag is cleared and the loop sleeps one second; when it
  says disconnected, nothing is called, the state is unchanged and the loop sleeps one
  second. Over any sequence of discovery results the loop shows no dialog, its calls of
  the two handlers alternate (a disconnect is signalled only from the connected state, so
  once per loss of the connection), it sleeps once per pass, and after a pass that raised
  it goes on with the passes that follow.
\<close>

theorem monitor_error_handling:
  "monitor_iter Resolve_raises w = monitor_iter (Streams [] b) w
   \<and> monitor_iter Resolve_raises w =
       (if connected w
        then ([Call_on_disconnection, Sleep 1], (on_disconnection w)\<lparr>connected := False\<rparr>)
        else ([Sleep 1], w))
   \<and> dialogs (snd (monitor_muse_connection ps w)) = dialogs w
   \<and> alternates (connected w) (fst (monitor_muse_connection ps w))
   \<and> length (filter (\<lambda>e. e = Sleep 1) (fst (monitor_muse_connection ps w))) = length ps
   \<and> monitor_muse_connection (ps @ [Resolve_raises] @ qs) w =
       (fst (monitor_muse_connection ps w)
          @ fst (monitor_iter Resolve_raises (snd (monitor_muse_connection ps w)))
          @ fst (monitor_muse_connection qs
                   (snd (monitor_iter Resolve_raises (snd (monitor_muse_connection ps w))))),
        snd (monitor_muse_connection qs
               (snd (monitor_iter Resolve_raises (snd (monitor_muse_connection ps w))))))"
proof -
  have "monitor_muse_connection [Resolve_raises] v = monitor_iter Resolve_raises v" for v
    by (simp split: prod.split)
  then have "monitor_muse_connection (ps @ [Resolve_raises] @ qs) w =
       (fst (monitor_muse_connection ps w)
          @ fst (monitor_iter Resolve_raises (snd (monitor_muse_connection ps w)))
          @ fst (monitor_muse_connection qs
                   (snd (monitor_iter Resolve_raises (snd (monitor_muse_connection ps w))))),
        snd (monitor_muse_connection qs
               (snd (monitor_iter Resolve_raises (snd (monitor_muse_connection ps w))))))"
    by (simp only: monitor_loop_append fst_conv snd_conv)
  then show ?thesis
    using monitor_loop_signals [of w ps]
    by (simp only: monitor_iter_raises monitor_iter_no_stream)
qed

subsection \<open>Runs and their histories\<close>

lemma run_snoc: "run (evs @ [e]) w = step e (run evs w)"
  by (induction evs arbitrary: w) simp_all

lemma history_snoc: "history (evs @ [e]) w = history evs w @ actions e (run evs w)"
  by (induction evs arbitrary: w) simp_all

lemma stopped_after_start_append:
  "stopped_after_start j h \<Longrightarrow> stopped_after_start j (h @ h')"
  by (induction j h rule: stopped_after_start.induct) auto

lemma stopped_after_start_new:
  "Started s \<in> set h \<Longrightarrow> stopped_after_start j (h @ [Stopped j])"
  by (induction j h rule: stopped_after_start.induct) auto

lemma id_entered_append: "id_entered h \<Longrightarrow> id_entered (h @ h')"
  by (auto simp: id_entered_def)

lemma id_entered_new: "s \<noteq> [] \<Longrightarrow> id_entered (h @ [Entered s])"
  by (auto simp: id_entered_def)

lemma stopped_keys_snoc [simp]:
  "stopped_keys (h @ [Stopped k]) = stopped_keys h @ [k]"
  "stopped_keys (h @ [Started k]) = stopped_keys h"
  "stopped_keys (h @ [Entered s]) = stopped_keys h"
  by (simp_all add: stopped_keys_def)

lemma first_occurrences_snoc:
  "first_occurrences (xs @ [x]) = (if x \<in> set xs then first_occurrences xs else first_occurrences xs @ [x])"
  by (simp add: first_occurrences_def)

lemma set_first_occurrences [simp]: "set (first_occurrences xs) = set xs"
  by (simp add: first_occurrences_def)

lemma dict_set_first_occurrences:
  assumes "map fst d = first_occurrences ks"
  shows "map fst (dict_set k v d) = first_occurrences (ks @ [k])"
proof -
  have "fst ` set d = set ks"
    using assms by (metis set_first_occurrences set_map)
  then show ?thesis
    by (simp add: dict_set_keys first_occurrences_snoc assms)
qed

lemma not_next_EC: "get_next_key j \<noteq> Inr (Some EC)"
  by (cases j) (simp_all add: get_next_key_simps)

lemma get_next_key_inj: "get_next_key j = Inr (Some k) \<Longrightarrow> get_next_key j' = Inr (Some k) \<Longrightarrow> j = j'"
  by (cases j; cases j'; simp add: get_next_key_simps)


lemma step_Poll_view:
  "recording (step (Poll p) w) = recording w"
  "start_time (step (Poll p) w) = start_time w"
  "durations (step (Poll p) w) = durations w"
  "btn_state (buttons (step (Poll p) w) k) = NORMAL \<Longrightarrow> btn_state (buttons w k) = NORMAL"
  by (cases p;
      auto simp: step_def monitor_iter_def monitor_try_def Let_def on_disconnection_eq
        on_connection_def show_text_field_def split: list.splits if_splits)+

lemma step_Pulled_view:
  "recording (step (Pulled sample ts) w) = recording w"
  "start_time (step (Pulled sample ts) w) = start_time w"
  "durations (step (Pulled sample ts) w) = durations w"
  "buttons (step (Pulled sample ts) w) = buttons w"
  by (simp_all add: step_def record_data_iter_def)

lemma step_Pull_enters_view:
  "recording (step Pull_enters w) = recording w"
  "start_time (step Pull_enters w) = start_time w"
  "durations (step Pull_enters w) = durations w"
  "buttons (step Pull_enters w) = buttons w"
  by (simp_all add: step_def record_data_enter_def)

lemma step_Pull_returns_view:
  "recording (step (Pull_returns sample ts) w) = recording w"
  "start_time (step (Pull_returns sample ts) w) = start_time w"
  "durations (step (Pull_returns sample ts) w) = durations w"
  "buttons (step (Pull_returns sample ts) w) = buttons w"
  by (simp_all add: step_def record_data_append_def)

lemma step_Tick_view:
  "recording (step (Tick t0 now) w) = recording w"
  "start_time (step (Tick t0 now) w) = start_time w"
  "durations (step (Tick t0 now) w) = durations w"
  "buttons (step (Tick t0 now) w) = buttons w"
  by (simp_all add: step_def update_stopwatch_iter_def)

lemma reach_inv_Poll: "reach_inv w h \<Longrightarrow> reach_inv (step (Poll p) w) (h @ actions (Poll p) w)"
  unfolding reach_inv_def
  by (simp add: actions_def step_Poll_view(1,2,3)) (meson step_Poll_view(4))

lemma reach_inv_Pulled:
  "reach_inv w h \<Longrightarrow> reach_inv (step (Pulled sample ts) w) (h @ actions (Pulled sample ts) w)"
  unfolding reach_inv_def by (simp add: actions_def step_Pulled_view)

lemma reach_inv_Pull_enters:
  "reach_inv w h \<Longrightarrow> reach_inv (step Pull_enters w) (h @ actions Pull_enters w)"
  unfolding reach_inv_def by (simp add: actions_def step_Pull_enters_view)

lemma reach_inv_Pull_returns:
  "reach_inv w h \<Longrightarrow>
     reach_inv (step (Pull_returns sample ts) w) (h @ actions (Pull_returns sample ts) w)"
  unfolding reach_inv_def by (simp add: actions_def step_Pull_returns_view)

lemma reach_inv_Tick:
  "reach_inv w h \<Longrightarrow> reach_inv (step (Tick t0 now) w) (h @ actions (Tick t0 now) w)"
  unfolding reach_inv_def by (simp add: actions_def step_Tick_view)

lemma reach_inv_KeyRelease:
  assumes "reach_inv w h"
  shows "reach_inv (step (KeyRelease entry) w) (h @ actions (KeyRelease entry) w)"
proof (cases "text_field_frame w = None")
  case True
  then show ?thesis using assms by (simp add: step_def actions_def)
next
  case False
  show ?thesis
  proof (cases "strip entry = []")
    case True
    with False assms show ?thesis
      unfolding reach_inv_def
      by (auto simp: step_def actions_def enable_buttons_def Let_def
            intro: id_entered_append stopped_after_start_append)
  next
    case ne: False
    with False assms show ?thesis
      unfolding reach_inv_def
      by (auto simp: step_def actions_def enable_buttons_def Let_def config_state_def not_next_EC
            intro: id_entered_append stopped_after_start_append id_entered_new)
  qed
qed


lemma reach_inv_start:
  assumes inv: "reach_inv w h" and en: "btn_state (buttons w key) = NORMAL"
    and nrec: "\<not> recording w"
  shows "reach_inv (snd (toggle_recording key now w)) (h @ [Started key])"
proof -
  have ide: "id_entered h" using inv en unfolding reach_inv_def by blast
  have st: "btn_state (buttons (snd (toggle_recording key now w)) k) = btn_state (buttons w k)" for k
    by (simp add: toggle_start [OF nrec])
  show ?thesis
    using inv ide unfolding reach_inv_def
    by (simp add: st) (auto simp: toggle_start [OF nrec] id_entered_append stopped_after_start_append)
qed

lemma reach_inv_stop:
  assumes inv: "reach_inv w h" and rec: "recording w"
  shows "reach_inv (snd (toggle_recording key now w)) (h @ [Stopped key])"
proof -
  from inv rec obtain t0 s where t0: "start_time w = Some t0" and ide: "id_entered h"
    and started: "Started s \<in> set h"
    unfolding reach_inv_def by auto
  have dur: "map fst (durations w) = first_occurrences (stopped_keys h)"
    using inv unfolding reach_inv_def by blast
  have keep: "stopped_after_start j (h @ [Stopped key])"
    if "get_next_key j = Inr (Some k)" "btn_state (buttons w k) = NORMAL" for j k
    using inv that unfolding reach_inv_def by (blast intro: stopped_after_start_append)
  have new: "stopped_after_start key (h @ [Stopped key])"
    using started by (rule stopped_after_start_new)
  have ide': "id_entered (h @ [Stopped key])" using ide by (rule id_entered_append)
  have dur': "map fst (dict_set key (now - t0) (durations w))
                = first_occurrences (stopped_keys (h @ [Stopped key]))"
    using dict_set_first_occurrences [OF dur] by simp
  show ?thesis
  proof (cases "writable w (csv_filename w key)")
    case False
    show ?thesis
      unfolding reach_inv_def
      using ide' dur' keep by (simp add: toggle_stop_csv_fails [OF rec t0 False])
  next
    case c: True
    show ?thesis
    proof (cases "writable w (duration_filename w)")
      case False
      show ?thesis
        unfolding reach_inv_def
        using ide' dur' keep by (simp add: toggle_stop_duration_fails [OF rec t0 c False])
    next
      case True
      have btn: "btn_state (buttons (snd (toggle_recording key now w)) k) = NORMAL
                 \<Longrightarrow> get_next_key key = Inr (Some k) \<or> btn_state (buttons w k) = NORMAL" for k
        by (simp add: toggle_stop [OF rec t0 c True] Let_def split: sum.splits option.splits if_splits)
      have "stopped_after_start j (h @ [Stopped key])"
        if a: "get_next_key j = Inr (Some k)"
          and b: "btn_state (buttons (snd (toggle_recording key now w)) k) = NORMAL" for j k
      proof -
        from btn [OF b] show ?thesis
        proof
          assume "get_next_key key = Inr (Some k)"
          with a have "j = key" by (rule get_next_key_inj)
          then show ?thesis using new by simp
        next
          assume "btn_state (buttons w k) = NORMAL"
          with a show ?thesis by (rule keep)
        qed
      qed
      then show ?thesis
        unfolding reach_inv_def
        using ide' dur' by (simp add: toggle_stop [OF rec t0 c True])
    qed
  qed
qed

lemma reach_inv_Press:
  assumes "reach_inv w h"
  shows "reach_inv (step (Press key now) w) (h @ actions (Press key now) w)"
proof (cases "btn_state (buttons w key) = NORMAL")
  case False
  then show ?thesis using assms by (simp add: step_def actions_def)
next
  case True
  show ?thesis
  proof (cases "recording w")
    case True
    with \<open>btn_state (buttons w key) = NORMAL\<close> reach_inv_stop [OF assms True, of key now]
    show ?thesis by (simp add: step_def actions_def)
  next
    case False
    with \<open>btn_state (buttons w key) = NORMAL\<close> reach_inv_start [OF assms True False, of now]
    show ?thesis by (simp add: step_def actions_def)
  qed
qed

lemma reach_inv_step: "reach_inv w h \<Longrightarrow> reach_inv (step e w) (h @ actions e w)"
  by (cases e)
     (simp_all only: reach_inv_Poll reach_inv_KeyRelease reach_inv_Press reach_inv_Pulled
        reach_inv_Pull_enters reach_inv_Pull_returns reach_inv_Tick)

lemma reach_inv_init: "reach_inv (init fs wr) []"
  by (simp add: reach_inv_def init_def first_occurrences_def stopped_keys_def)

lemma reach_inv_run: "reach_inv (run evs (init fs wr)) (history evs (init fs wr))"
proof (induction evs rule: rev_induct)
  case Nil
  show ?case by (simp add: reach_inv_init)
next
  case (snoc e evs)
  then show ?case by (simp only: run_snoc history_snoc reach_inv_step)
qed


text \<open>While a recording is in progress the start time is there.\<close>

lemma recording_has_start_time:
  "recording (run evs (init fs wr)) \<Longrightarrow> \<exists>t0. start_time (run evs (init fs wr)) = Some t0"
  using reach_inv_run [of evs fs wr] unfolding reach_inv_def by auto

lemma writable_toggle: "writable (snd (toggle_recording key now w)) = writable w"
  using get_next_key_not_Inl [of key]
  by (simp add: toggle_defs persist_defs Let_def split: option.split sum.split)

lemma writable_step: "writable (step e w) = writable w"
  by (cases e)
     (auto simp: step_def writable_toggle monitor_iter_def monitor_try_def Let_def
        on_disconnection_eq on_connection_def show_text_field_def enable_buttons_def
        config_state_def record_data_iter_def record_data_enter_def record_data_append_def
        update_stopwatch_iter_def
        split: poll.split list.split)

lemma writable_run: "writable (run evs w) = writable w"
  by (induction evs arbitrary: w) (simp_all add: writable_step)

lemmas eval_defs =
  init_def step_def actions_def monitor_iter_def monitor_try_def on_connection_def
  show_text_field_def on_disconnection_eq enable_buttons_def strip_def is_space_def
  toggle_recording_def reset_stopwatch_def config_state_def config_text_def
  start_stopwatch_def replace_underscore_key get_next_key_simps
  save_data_def write_file_def update_duration_file_def showinfo_def
  csv_filename_def duration_filename_def duration_text_def pid_str_def
  record_data_iter_def record_data_enter_def record_data_append_def
  update_stopwatch_iter_def Let_def

text \<open>
  A key release with a non-empty identifier in the entry enables EC, whatever came
  before; an entry of whitespace only stores the empty identifier and enables nothing.
\<close>

lemma key_release_enables_EC:
  "text_field_frame w \<noteq> None \<Longrightarrow> strip entry \<noteq> [] \<Longrightarrow>
     btn_state (buttons (step (KeyRelease entry) w) EC) = NORMAL"
  by (simp add: step_def enable_buttons_def config_state_def)

lemma key_release_blank:
  "strip entry = [] \<Longrightarrow>
     buttons (step (KeyRelease entry) w) = buttons w
     \<and> (text_field_frame w \<noteq> None \<longrightarrow> participant_id (step (KeyRelease entry) w) = Some [])"
  by (simp add: step_def enable_buttons_def)

lemma strip_no_break_space: "strip [CHR 0xA0, CHR 0x85, CHR 0x20] = []"
  by (simp add: strip_def is_space_def)

subsection \<open>The order in which buttons are enabled\<close>

text \<open>
  C1, as amended. In every run from the initial state, a segment button is enabled only
  after a non-empty participant identifier has been stored by \<open>enable_buttons\<close>, and
  the button of a key that follows key \<open>j\<close> in the declared order is enabled only after
  some segment was started and the stop branch then ran for \<open>j\<close>.
\<close>

theorem enabled_only_in_order:
  assumes "btn_state (buttons (run evs (init fs wr)) k) = NORMAL"
  shows "id_entered (history evs (init fs wr))
    \<and> (\<forall>j. get_next_key j = Inr (Some k) \<longrightarrow> stopped_after_start j (history evs (init fs wr)))"
  using reach_inv_run [of evs fs wr] assms unfolding reach_inv_def by blast

text \<open>After an identifier is typed and EC is started and stopped, EO is enabled.\<close>

theorem enabled_only_in_order_witness:
  "btn_state (buttons (run [Poll (Streams [''Muse''] True), KeyRelease ''P01'', Press EC 0,
                            Press EC 5]
                        (init (\<lambda>_. None) (\<lambda>_. True))) EO) = NORMAL
   \<and> id_entered (history [Poll (Streams [''Muse''] True), KeyRelease ''P01'', Press EC 0,
                           Press EC 5]
                    (init (\<lambda>_. None) (\<lambda>_. True)))
   \<and> stopped_after_start EC
        (history [Poll (Streams [''Muse''] True), KeyRelease ''P01'', Press EC 0, Press EC 5]
           (init (\<lambda>_. None) (\<lambda>_. True)))"
proof -
  let ?evs = "[Poll (Streams [''Muse''] True), KeyRelease ''P01'', Press EC 0, Press EC 5]"
  have h: "btn_state (buttons (run ?evs (init (\<lambda>_. None) (\<lambda>_. True))) EO) = NORMAL"
    by (simp add: eval_defs)
  from enabled_only_in_order [OF h] show ?thesis
    using h by (simp add: get_next_key_simps)
qed

text \<open>
  C1 as stated fails: after EC is recorded, a key release in the entry enables EC again;
  EC then starts a recording and EO stops it. Personality1 is now enabled, and EO was
  never started.
\<close>

theorem started_and_stopped_counterexample:
  "btn_state (buttons (run [Poll (Streams [''Muse''] True), KeyRelease ''p'', Press EC 0,
                            Press EC 1, KeyRelease ''p'', Press EC 2, Press EO 3]
                        (init (\<lambda>_. None) (\<lambda>_. True))) Personality1) = NORMAL
   \<and> get_next_key EO = Inr (Some Personality1)
   \<and> history [Poll (Streams [''Muse''] True), KeyRelease ''p'', Press EC 0,
               Press EC 1, KeyRelease ''p'', Press EC 2, Press EO 3]
        (init (\<lambda>_. None) (\<lambda>_. True))
      = [Entered ''p'', Started EC, Stopped EC, Entered ''p'', Started EC, Stopped EO]
   \<and> \<not> started_and_stopped EO
          (history [Poll (Streams [''Muse''] True), KeyRelease ''p'', Press EC 0,
                    Press EC 1, KeyRelease ''p'', Press EC 2, Press EO 3]
             (init (\<lambda>_. None) (\<lambda>_. True)))"
  by (simp add: eval_defs started_and_stopped_def)


subsection \<open>The duration file\<close>

text \<open>
  C3. In every run from the initial state, a stop action on \<open>key\<close> whose two files can
  be opened leaves in \<open>participant_duration.txt\<close> the line "Participant ID: " with the
  identifier, followed by one line per entry of the durations, in their order, each the
  key, a colon, the duration with two decimals and " seconds". The content does not
  depend on what the file held before. The keys of the durations are the keys for which
  the stop branch has run so far, each once, in the order of their first stop; this stop
  is the latest of them, and its duration is the clock reading minus the start time.
\<close>

theorem duration_file_rewritten:
  assumes "recording (run evs (init fs wr))"
    and "btn_state (buttons (run evs (init fs wr)) key) = NORMAL"
    and "wr (csv_filename (run evs (init fs wr)) key)"
    and "wr (duration_filename (run evs (init fs wr)))"
  shows "files (run (evs @ [Press key now]) (init fs wr))
           (pid_str (run evs (init fs wr)) @ ''_duration.txt'')
         = Some (Plain (''Participant ID: '' @ pid_str (run evs (init fs wr)) @ newline
              @ concat (map (\<lambda>(k, d). key_str k @ '': '' @ format_2f d @ '' seconds'' @ newline)
                          (durations (run (evs @ [Press key now]) (init fs wr))))))
    \<and> map fst (durations (run (evs @ [Press key now]) (init fs wr)))
        = first_occurrences (stopped_keys (history (evs @ [Press key now]) (init fs wr)))
    \<and> stopped_keys (history (evs @ [Press key now]) (init fs wr))
        = stopped_keys (history evs (init fs wr)) @ [key]
    \<and> (\<exists>t0. start_time (run evs (init fs wr)) = Some t0
          \<and> map_of (durations (run (evs @ [Press key now]) (init fs wr))) key = Some (now - t0))"
proof -
  let ?w = "run evs (init fs wr)"
  let ?w' = "run (evs @ [Press key now]) (init fs wr)"
  from reach_inv_run [of evs fs wr] assms(1) obtain t0 where t0: "start_time ?w = Some t0"
    unfolding reach_inv_def by auto
  have "writable ?w = wr" by (simp add: writable_run init_def)
  then have c: "writable ?w (csv_filename ?w key)" and d: "writable ?w (duration_filename ?w)"
    using assms(3,4) by simp_all
  have w': "?w' = snd (toggle_recording key now ?w)"
    using assms(2) by (simp only: run_snoc) (simp add: step_def)
  note ts = toggle_stop [OF assms(1) t0 c d, of now]
  have line: "duration_line = (\<lambda>(k, d). key_str k @ '': '' @ format_2f d @ '' seconds'' @ newline)"
    by (simp add: fun_eq_iff duration_line_def)
  have 1: "files ?w' (pid_str ?w @ ''_duration.txt'')
         = Some (Plain (''Participant ID: '' @ pid_str ?w @ newline
              @ concat (map (\<lambda>(k, d). key_str k @ '': '' @ format_2f d @ '' seconds'' @ newline)
                          (durations ?w'))))"
    unfolding w' line [symmetric] by (simp add: ts duration_filename_def)
  have 2: "map fst (durations ?w') = first_occurrences (stopped_keys (history (evs @ [Press key now]) (init fs wr)))"
    using reach_inv_run [of "evs @ [Press key now]" fs wr] unfolding reach_inv_def by blast
  have 3: "stopped_keys (history (evs @ [Press key now]) (init fs wr))
        = stopped_keys (history evs (init fs wr)) @ [key]"
    using assms(1,2) by (simp add: history_snoc actions_def)
  have 4: "map_of (durations ?w') key = Some (now - t0)"
    unfolding w' by (simp add: ts map_of_dict_set)
  from 1 2 3 4 t0 show ?thesis by blast
qed




text \<open>
  EC recorded for 2.5 seconds and then EO for 4 seconds: two lines after the identifier,
  EC first.
\<close>

theorem duration_file_rewritten_witness:
  "recording (run [Poll (Streams [''Muse''] True), KeyRelease ''P01'', Press EC 0,
                   Press EC (5 / 2), Press EO 3] (init (\<lambda>_. None) (\<lambda>_. True)))
   \<and> files (run ([Poll (Streams [''Muse''] True), KeyRelease ''P01'', Press EC 0,
                   Press EC (5 / 2), Press EO 3] @ [Press EO 7])
               (init (\<lambda>_. None) (\<lambda>_. True)))
        ''P01_duration.txt''
      = Some (Plain (''Participant ID: P01'' @ newline @ ''EC: 2.50 seconds'' @ newline
                     @ ''EO: 4.00 seconds'' @ newline))
   \<and> map fst (durations (run ([Poll (Streams [''Muse''] True), KeyRelease ''P01'', Press EC 0,
                   Press EC (5 / 2), Press EO 3] @ [Press EO 7])
               (init (\<lambda>_. None) (\<lambda>_. True))))
      = [EC, EO]"
proof -
  let ?evs = "[Poll (Streams [''Muse''] True), KeyRelease ''P01'', Press EC 0,
               Press EC (5 / 2), Press EO 3]"
  let ?i = "init (\<lambda>_. None) (\<lambda>_. True)"
  have h1: "recording (run ?evs ?i)" by (simp add: eval_defs)
  have h2: "btn_state (buttons (run ?evs ?i) EO) = NORMAL" by (simp add: eval_defs)
  have pid: "pid_str (run ?evs ?i) = ''P01''" by (simp add: eval_defs)
  have d': "durations (run (?evs @ [Press EO 7]) ?i) = [(EC, 5 / 2), (EO, 4)]"
    by (simp add: eval_defs)
  have f1: "format_2f (5 / 2) = ''2.50''" and f2: "format_2f 4 = ''4.00''"
    by (simp_all add: format_2f_def round_half_even_def show_nat.simps digit_char_def)
  have "files (run (?evs @ [Press EO 7]) ?i) (pid_str (run ?evs ?i) @ ''_duration.txt'')
         = Some (Plain (''Participant ID: '' @ pid_str (run ?evs ?i) @ newline
              @ concat (map (\<lambda>(k, d). key_str k @ '': '' @ format_2f d @ '' seconds'' @ newline)
                          (durations (run (?evs @ [Press EO 7]) ?i)))))"
    using duration_file_rewritten [of ?evs "\<lambda>_. None" "\<lambda>_. True" EO 7] h1 h2 by blast
  then have "files (run (?evs @ [Press EO 7]) ?i) (''P01'' @ ''_duration.txt'')
         = Some (Plain (''Participant ID: '' @ ''P01'' @ newline
              @ concat (map (\<lambda>(k, d). key_str k @ '': '' @ format_2f d @ '' seconds'' @ newline)
                          [(EC, 5 / 2), (EO, 4)])))"
    by (simp only: pid d')
  then have "files (run (?evs @ [Press EO 7]) ?i) ''P01_duration.txt''
      = Some (Plain (''Participant ID: P01'' @ newline @ ''EC: 2.50 seconds'' @ newline
                     @ ''EO: 4.00 seconds'' @ newline))"
    by (simp add: f1 f2 del: run.simps)
  then show ?thesis using h1 d' by (simp del: run.simps)
qed

subsection \<open>Concrete runs\<close>

text \<open>Stopping EC at 12 in the run that started it at 10: EC is disabled and EO enabled.\<close>

theorem stop_action_effects_witness:
  "recording recording_demo
   \<and> fst (toggle_recording EC 12 recording_demo) = Returned
   \<and> \<not> recording (snd (toggle_recording EC 12 recording_demo))
   \<and> stopwatch_label (snd (toggle_recording EC 12 recording_demo)) = ''Stopwatch: 00:00:00''
   \<and> btn_state (buttons (snd (toggle_recording EC 12 recording_demo)) EC) = DISABLED
   \<and> btn_state (buttons (snd (toggle_recording EC 12 recording_demo)) EO) = NORMAL"
proof -
  have h1: "recording recording_demo" by (simp add: eval_defs)
  have h2: "start_time recording_demo = Some 10" by (simp add: eval_defs)
  have h3: "writable recording_demo (csv_filename recording_demo EC)"
    by (simp add: writable_run init_def del: run.simps)
  have h4: "writable recording_demo (duration_filename recording_demo)"
    by (simp add: writable_run init_def del: run.simps)
  from stop_action_effects [OF h1 h2 h3 h4, of 12]
  show ?thesis using h1 by (simp add: get_next_key_simps del: run.simps)
qed

text \<open>
  Starting EO after EC was saved: the row of EC's recording leaves the buffer and is not
  in EO's file.
\<close>

theorem start_action_effects_witness:
  "\<not> recording saved_demo
   \<and> data saved_demo = [[11, 1, 2, 3, 4, 5]]
   \<and> recording (snd (toggle_recording EO 20 saved_demo))
   \<and> start_time (snd (toggle_recording EO 20 saved_demo)) = Some 20
   \<and> data (snd (toggle_recording EO 20 saved_demo)) = []
   \<and> btn_text (buttons (snd (toggle_recording EO 20 saved_demo)) EO) = ''Stop Recording''
   \<and> files (snd (toggle_recording EO 22
               (record_data [([6, 7, 8, 9, 10], 21)] (snd (toggle_recording EO 20 saved_demo)))))
        ''P01_EO.csv''
      = Some (Csv [csv_header, [Number 21, Number 6, Number 7, Number 8, Number 9, Number 10]])"
proof -
  have h1: "\<not> recording saved_demo" by (simp add: eval_defs)
  have d: "data saved_demo = [[11, 1, 2, 3, 4, 5]]" by (simp add: eval_defs)
  have nm: "csv_filename saved_demo EO = ''P01_EO.csv''" by (simp add: eval_defs)
  have wr: "writable saved_demo (csv_filename saved_demo EO)"
    by (simp add: writable_run init_def del: run.simps)
  note eff = start_action_effects [OF h1, of EO 20]
  from eff wr
  have "files (snd (toggle_recording EO 22
               (record_data [([6, 7, 8, 9, 10], 21)] (snd (toggle_recording EO 20 saved_demo)))))
          (csv_filename saved_demo EO)
        = Some (Csv (csv_header
             # csv_rows (map (\<lambda>(sample, timestamp). timestamp # sample) [([6, 7, 8, 9, 10], 21)])))"
    by blast
  then have "files (snd (toggle_recording EO 22
               (record_data [([6, 7, 8, 9, 10], 21)] (snd (toggle_recording EO 20 saved_demo)))))
          ''P01_EO.csv''
        = Some (Csv [csv_header, [Number 21, Number 6, Number 7, Number 8, Number 9, Number 10]])"
    unfolding nm by (simp add: csv_rows_def del: run.simps record_data.simps)
  with eff h1 d show ?thesis by blast
qed

text \<open>One sample pulled while recording EC: the header and that one row.\<close>

theorem saved_csv_file_witness:
  "recording recording_demo
   \<and> files (snd (toggle_recording EC 12 recording_demo)) ''P01_EC.csv''
      = Some (Csv [[Text ''timestamps'', Text ''TP9'', Text ''AF7'', Text ''AF8'', Text ''TP10'',
                    Text ''Right AUX''],
                   [Number 11, Number 1, Number 2, Number 3, Number 4, Number 5]])"
proof -
  have h1: "recording recording_demo" by (simp add: eval_defs)
  have h2: "start_time recording_demo = Some 10" by (simp add: eval_defs)
  have h3: "participant_id recording_demo = Some ''P01''" by (simp add: eval_defs)
  have h4: "writable recording_demo (''P01'' @ ''_'' @ key_str EC @ ''.csv'')"
    by (simp add: writable_run init_def del: run.simps)
  have d: "data recording_demo = [[11, 1, 2, 3, 4, 5]]" by (simp add: eval_defs)
  from saved_csv_file [OF h1 h2 h3 h4, of 12]
  show ?thesis using h1 d by (simp del: run.simps)
qed

text \<open>EC started at 10 and stopped a millisecond later with no sample.\<close>

theorem empty_recording_saved_witness:
  "\<not> recording idle_demo
   \<and> fst (toggle_recording EC (10 + 1 / 1000) (snd (toggle_recording EC 10 idle_demo))) = Returned
   \<and> files (snd (toggle_recording EC (10 + 1 / 1000) (snd (toggle_recording EC 10 idle_demo))))
        ''P01_EC.csv''
      = Some (Csv [[Text ''timestamps'', Text ''TP9'', Text ''AF7'', Text ''AF8'', Text ''TP10'',
                    Text ''Right AUX'']])
   \<and> files (snd (toggle_recording EC (10 + 1 / 1000) (snd (toggle_recording EC 10 idle_demo))))
        ''P01_duration.txt''
      = Some (Plain (''Participant ID: P01'' @ newline @ ''EC: 0.00 seconds'' @ newline))"
proof -
  have h1: "\<not> recording idle_demo" by (simp add: eval_defs)
  have h2: "writable idle_demo (csv_filename idle_demo EC)"
    by (simp add: writable_run init_def del: run.simps)
  have h3: "writable idle_demo (duration_filename idle_demo)"
    by (simp add: writable_run init_def del: run.simps)
  have nm: "csv_filename idle_demo EC = ''P01_EC.csv''"
    "duration_filename idle_demo = ''P01_duration.txt''" "pid_str idle_demo = ''P01''"
    by (simp_all add: eval_defs)
  have du: "durations idle_demo = []" by (simp add: eval_defs)
  from empty_recording_saved [OF h1 h2 h3, of "10 + 1 / 1000" 10]
  show ?thesis using h1 unfolding nm du by (simp add: duration_line_def del: run.simps)
qed


text \<open>
  The duration file cannot be opened: the stop raises, the data file is written, no
  duration file exists, the button of EC stays enabled and no dialog is shown.
\<close>

theorem save_error_not_atomic_witness:
  "recording locked_demo
   \<and> \<not> writable locked_demo ''P01_duration.txt''
   \<and> fst (toggle_recording EC 12 locked_demo) = Raised (OSError ''P01_duration.txt'')
   \<and> files (snd (toggle_recording EC 12 locked_demo)) ''P01_EC.csv''
      = Some (Csv [csv_header, [Number 11, Number 1, Number 2, Number 3, Number 4, Number 5]])
   \<and> files (snd (toggle_recording EC 12 locked_demo)) ''P01_duration.txt'' = None
   \<and> map_of (durations (snd (toggle_recording EC 12 locked_demo))) EC = Some 2
   \<and> btn_state (buttons (snd (toggle_recording EC 12 locked_demo)) EC) = NORMAL
   \<and> dialogs (snd (toggle_recording EC 12 locked_demo)) = []"
proof -
  have h1: "recording locked_demo" by (simp add: eval_defs)
  have h2: "start_time locked_demo = Some 10" by (simp add: eval_defs)
  have nm: "csv_filename locked_demo EC = ''P01_EC.csv''"
    "duration_filename locked_demo = ''P01_duration.txt''"
    by (simp_all add: eval_defs)
  have wr: "writable locked_demo ''P01_EC.csv''" "\<not> writable locked_demo ''P01_duration.txt''"
    by (simp_all add: writable_run init_def del: run.simps)
  have d: "data locked_demo = [[11, 1, 2, 3, 4, 5]]" and f: "files locked_demo = (\<lambda>_. None)"
    and b: "btn_state (buttons locked_demo EC) = NORMAL" and dl: "dialogs locked_demo = []"
    by (simp_all add: eval_defs)
  note err = save_error_not_atomic [OF h1 h2, of EC 12, unfolded nm]
  from err wr have 1: "fst (toggle_recording EC 12 locked_demo) = Raised (OSError ''P01_duration.txt'')"
    by simp
  from err wr have 2: "files (snd (toggle_recording EC 12 locked_demo)) ''P01_EC.csv''
      = Some (Csv (csv_header # csv_rows (data locked_demo)))"
    and 3: "files (snd (toggle_recording EC 12 locked_demo)) ''P01_duration.txt''
      = files locked_demo ''P01_duration.txt''"
    and 4: "map_of (durations (snd (toggle_recording EC 12 locked_demo))) EC = Some (12 - 10)"
    by blast+
  from err 1 have 5: "buttons (snd (toggle_recording EC 12 locked_demo)) = buttons locked_demo"
    and 6: "dialogs (snd (toggle_recording EC 12 locked_demo)) = dialogs locked_demo"
    by blast+
  show ?thesis
    using h1 wr(2) 1 2 3 4 unfolding 5 6 d f b dl by (simp add: csv_rows_def del: run.simps)
qed

text \<open>
  With EC and EO both enabled, EC starts a recording and EO stops it: the row is saved in
  EO's file and EC's file is untouched.
\<close>

theorem shared_flag_stop_witness:
  "\<not> recording retyped_demo
   \<and> btn_state (buttons retyped_demo EC) = NORMAL
   \<and> btn_state (buttons retyped_demo EO) = NORMAL
   \<and> \<not> recording (step (Press EO 22)
          (record_data [([6, 7, 8, 9, 10], 21)] (step (Press EC 20) retyped_demo)))
   \<and> files (step (Press EO 22)
          (record_data [([6, 7, 8, 9, 10], 21)] (step (Press EC 20) retyped_demo))) ''P01_EO.csv''
      = Some (Csv [csv_header, [Number 21, Number 6, Number 7, Number 8, Number 9, Number 10]])
   \<and> map_of (durations (step (Press EO 22)
          (record_data [([6, 7, 8, 9, 10], 21)] (step (Press EC 20) retyped_demo)))) EO = Some 2
   \<and> files (step (Press EO 22)
          (record_data [([6, 7, 8, 9, 10], 21)] (step (Press EC 20) retyped_demo))) ''P01_EC.csv''
      = files retyped_demo ''P01_EC.csv''
   \<and> map_of (durations (step (Press EO 22)
          (record_data [([6, 7, 8, 9, 10], 21)] (step (Press EC 20) retyped_demo)))) EC = Some 2"
proof -
  have h1: "\<not> recording retyped_demo" by (simp add: eval_defs)
  have h2: "btn_state (buttons retyped_demo EC) = NORMAL" by (simp add: eval_defs)
  have h3: "btn_state (buttons retyped_demo EO) = NORMAL" by (simp add: eval_defs)
  have h4: "writable retyped_demo (csv_filename retyped_demo EO)"
    by (simp add: writable_run init_def del: run.simps)
  have h5: "writable retyped_demo (duration_filename retyped_demo)"
    by (simp add: writable_run init_def del: run.simps)
  have nm: "csv_filename retyped_demo EO = ''P01_EO.csv''"
    "csv_filename retyped_demo EC = ''P01_EC.csv''"
    by (simp_all add: eval_defs)
  have du: "map_of (durations retyped_demo) EC = Some 2" by (simp add: eval_defs)
  have ne: "EC \<noteq> EO" by simp
  note sh = shared_flag_stop [OF h1 h2 h3 h4 h5, of "[([6, 7, 8, 9, 10], 21)]" 20 22, unfolded nm]
  let ?w3 = "step (Press EO 22) (record_data [([6, 7, 8, 9, 10], 21)] (step (Press EC 20) retyped_demo))"
  from sh have 1: "\<not> recording ?w3"
    and 2: "files ?w3 ''P01_EO.csv''
      = Some (Csv (csv_header # csv_rows (map (\<lambda>(sample, timestamp). timestamp # sample)
                                             [([6, 7, 8, 9, 10], 21)])))"
    and 3: "map_of (durations ?w3) EO = Some (22 - 20)"
    by blast+
  from sh ne have 4: "files ?w3 ''P01_EC.csv'' = files retyped_demo ''P01_EC.csv''"
    and 5: "map_of (durations ?w3) EC = map_of (durations retyped_demo) EC"
    by blast+
  have e2: "files ?w3 ''P01_EO.csv''
      = Some (Csv [csv_header, [Number 21, Number 6, Number 7, Number 8, Number 9, Number 10]])"
    unfolding 2 by (simp add: csv_rows_def)
  have e3: "map_of (durations ?w3) EO = Some 2" unfolding 3 by simp
  have e5: "map_of (durations ?w3) EC = Some 2" using 5 du by simp
  from h1 h2 h3 1 e2 e3 4 e5 show ?thesis by blast
qed

end
